theory Spec2Isabelle
  imports Complex_Main "HOL-Library.AList"
begin

section \<open>The in-memory download cache of app.py\<close>

text \<open>
  The cache of the application is a Python dict from download ids to tuples
  \<^verbatim>\<open>(bytes, mimetype, filename, expiry_datetime)\<close>.  A dict keeps its keys in
  insertion order, so it is an association list here: the assignment
  \<^verbatim>\<open>d[k] = v\<close> is \<^const>\<open>AList.update\<close> (replace in place, or append a new
  key) and \<^verbatim>\<open>d.pop(k, None)\<close> is a lookup with \<^const>\<open>map_of\<close> followed by
  \<^const>\<open>AList.delete\<close>.  The tuple type \<^verbatim>\<open>DownloadEntry\<close> is a record whose
  fields are named after the variables the source unpacks it into.  Bytes are octets
  given by their value; a \<^verbatim>\<open>datetime\<close> is a number of microseconds, the resolution
  of Python's type; the clock \<^verbatim>\<open>datetime.utcnow()\<close> is read by the caller of each
  function and passed in, one argument for each read in the source.
\<close>

type_synonym bytes = "nat list"
type_synonym datetime = int

record DownloadEntry =
  entry_bytes :: bytes
  entry_mimetype :: string
  entry_filename :: string
  entry_expiry :: datetime

type_synonym download_cache = "(string \<times> DownloadEntry) list"

definition DOWNLOAD_CACHE_TTL_SECONDS :: int where
  "DOWNLOAD_CACHE_TTL_SECONDS = 300"

definition timedelta_seconds :: "int \<Rightarrow> int" where
  "timedelta_seconds s = s * 1000000"

text \<open>A dict has each key once.\<close>

definition wf_cache :: "download_cache \<Rightarrow> bool" where
  "wf_cache c = distinct (map fst c)"

text \<open>
  \<^verbatim>\<open>_cleanup_expired_cache\<close>: the list comprehension collects the keys of the
  expired entries, then the loop pops each of them.
\<close>

definition expired_keys :: "download_cache \<Rightarrow> datetime \<Rightarrow> string list" where
  "expired_keys c now = map fst (filter (\<lambda>(k, e). entry_expiry e \<le> now) c)"

definition cleanup_expired_cache ::
    "download_cache \<Rightarrow> datetime \<Rightarrow> download_cache" where
  "cleanup_expired_cache c now = fold AList.delete (expired_keys c now) c"

text \<open>\<^verbatim>\<open>app.download_cache.pop(download_id, None)\<close>.\<close>

definition cache_pop ::
    "download_cache \<Rightarrow> string \<Rightarrow> DownloadEntry option \<times> download_cache" where
  "cache_pop c k = (map_of c k, AList.delete k c)"

subsection \<open>Responses\<close>

text \<open>
  The exceptions of the model: those that Pillow raises, \<^verbatim>\<open>UnidentifiedImageError\<close>
  and every other class, each with its message; and the exceptions that can reach the
  framework because no \<^verbatim>\<open>try\<close> of the source is around the statement that
  raises them.
\<close>

datatype pil_error = UnidentifiedImageError string | OtherError string

datatype py_exception = ZeroDivisionError | PillowError pil_error

text \<open>
  A request ends in one of four ways: a flash message of category error and a redirect
  to the index page, the index page rendered with an optional result, the bytes sent
  as an attachment, or an exception that no handler of the source catches, which the
  framework answers with status 500.  The fields of a result are the keys of the source's
  dict with the prefix \<open>res_\<close>; its numbers are the values of Python floats, which
  are rationals.
\<close>

record result =
  res_original_kb :: rat
  res_compressed_kb :: rat
  res_percent :: rat
  res_format :: string
  res_quality :: int
  res_download_id :: string
  res_filename :: string

datatype response =
    FlashErrorRedirect string
  | RenderIndex "result option"
  | SendFile bytes string string
  | InternalServerError py_exception

subsection \<open>The download route\<close>

definition download_image ::
    "download_cache \<Rightarrow> string \<Rightarrow> datetime \<Rightarrow> datetime \<Rightarrow> response \<times> download_cache" where
  "download_image c download_id now1 now2 =
     (let c1 = cleanup_expired_cache c now1;
          (entry, c2) = cache_pop c1 download_id
      in case entry of
           None \<Rightarrow>
             (FlashErrorRedirect ''Download is no longer available or has expired.'', c2)
         | Some e \<Rightarrow>
             if entry_expiry e \<le> now2
             then (FlashErrorRedirect ''Download has expired.'', c2)
             else (SendFile (entry_bytes e) (entry_mimetype e) (entry_filename e), c2))"

subsection \<open>The index route\<close>

definition index :: "download_cache \<Rightarrow> datetime \<Rightarrow> response \<times> download_cache" where
  "index c now = (RenderIndex None, cleanup_expired_cache c now)"

section \<open>Python floats\<close>

text \<open>
  A Python float is an IEEE 754 binary64 number.  Its finite values are rationals, and
  every arithmetic operation returns the exact result rounded to the nearest value with a
  53-bit significand, ties going to the even significand.  \<open>float_round\<close> is that
  rounding on the rationals; the exponent is not bounded, so it is binary64 for results
  whose magnitude is zero or between \<open>2 powi (-1022)\<close> and \<open>2 powi 1024\<close>, which holds
  for sizes in kilobytes, percentages and quality levels.
\<close>

definition round_half_even :: "rat \<Rightarrow> int" where
  "round_half_even x =
     (let f = \<lfloor>x\<rfloor>
      in if x - of_int f < 1 / 2 then f
         else if 1 / 2 < x - of_int f then f + 1
         else if even f then f else f + 1)"

function log2_up :: "rat \<Rightarrow> nat" where
  "log2_up x = (if 2 \<le> x then Suc (log2_up (x / 2)) else 0)"
  by pat_completeness auto
termination
proof (relation "measure (\<lambda>x. nat \<lfloor>x\<rfloor>)")
  show "wf (measure (\<lambda>x::rat. nat \<lfloor>x\<rfloor>))" by simp
next
  fix x :: rat
  assume "2 \<le> x"
  then have "\<lfloor>x / 2\<rfloor> < \<lfloor>x\<rfloor>" "0 < \<lfloor>x\<rfloor>"
    by linarith+
  then show "(x / 2, x) \<in> measure (\<lambda>x. nat \<lfloor>x\<rfloor>)"
    by simp
qed

function log2_down :: "rat \<Rightarrow> nat" where
  "log2_down x = (if 0 < x \<and> x < 1 then Suc (log2_down (2 * x)) else 0)"
  by pat_completeness auto
termination
proof (relation "measure (\<lambda>x. nat \<lfloor>1 / x\<rfloor>)")
  show "wf (measure (\<lambda>x::rat. nat \<lfloor>1 / x\<rfloor>))" by simp
next
  fix x :: rat
  assume a: "0 < x \<and> x < 1"
  define y where "y = 1 / x"
  from a have "1 < y" by (simp add: y_def)
  then have pos: "0 < \<lfloor>y\<rfloor>" by linarith
  have "y < of_int \<lfloor>y\<rfloor> + 1" by linarith
  with pos have "y / 2 < of_int \<lfloor>y\<rfloor>" by linarith
  then have lt: "\<lfloor>y / 2\<rfloor> < \<lfloor>y\<rfloor>" by (simp add: floor_less_iff)
  have eq: "1 / (2 * x) = y / 2" by (simp add: y_def)
  have "nat \<lfloor>1 / (2 * x)\<rfloor> < nat \<lfloor>1 / x\<rfloor>"
    unfolding eq y_def [symmetric] using lt pos by linarith
  then show "(2 * x, x) \<in> measure (\<lambda>x. nat \<lfloor>1 / x\<rfloor>)"
    by simp
qed

declare log2_up.simps [simp del] log2_down.simps [simp del]

definition floor_log2 :: "rat \<Rightarrow> int" where
  "floor_log2 x = (if 1 \<le> x then int (log2_up x) else - int (log2_down x))"

definition float_round :: "rat \<Rightarrow> rat" where
  "float_round x =
     (if x = 0 then 0
      else let e = floor_log2 \<bar>x\<bar> - 52;
               m = round_half_even (\<bar>x\<bar> / 2 powi e)
           in sgn x * of_int m * 2 powi e)"

definition float_of_int :: "int \<Rightarrow> rat" where
  "float_of_int n = float_round (of_int n)"

definition float_sub :: "rat \<Rightarrow> rat \<Rightarrow> rat" where
  "float_sub a b = float_round (a - b)"

definition float_mul :: "rat \<Rightarrow> rat \<Rightarrow> rat" where
  "float_mul a b = float_round (a * b)"

definition float_truediv :: "rat \<Rightarrow> rat \<Rightarrow> py_exception + rat" where
  "float_truediv a b = (if b = 0 then Inl ZeroDivisionError else Inr (float_round (a / b)))"

text \<open>Division where the divisor is a literal or a nonzero constant of the source.\<close>

definition float_div :: "rat \<Rightarrow> rat \<Rightarrow> rat" where
  "float_div a b = float_round (a / b)"

text \<open>
  \<^verbatim>\<open>round(x)\<close> of a float is the nearest integer, ties to even; \<^verbatim>\<open>round(x, 2)\<close>
  is the float nearest to the decimal with two places that is nearest to \<open>x\<close>, ties to
  even.
\<close>

definition py_round :: "rat \<Rightarrow> int" where
  "py_round x = round_half_even x"

definition py_round_ndigits :: "rat \<Rightarrow> nat \<Rightarrow> rat" where
  "py_round_ndigits x n = float_round (of_int (round_half_even (x * 10 ^ n)) / 10 ^ n)"

section \<open>The compress route\<close>

subsection \<open>Configuration\<close>

definition ALLOWED_OUTPUT_FORMATS :: "string set" where
  "ALLOWED_OUTPUT_FORMATS = {''JPEG'', ''PNG'', ''WEBP''}"

definition DEFAULT_QUALITY :: int where
  "DEFAULT_QUALITY = 40"

definition MAX_QUALITY :: int where
  "MAX_QUALITY = 100"

definition MIN_QUALITY :: int where
  "MIN_QUALITY = 1"

subsection \<open>Strings\<close>

text \<open>
  \<^verbatim>\<open>str.upper\<close> and \<^verbatim>\<open>str.lower\<close> on the ASCII letters; other characters are kept.
\<close>

definition upper_char :: "char \<Rightarrow> char" where
  "upper_char ch =
     (case map_of (zip ''abcdefghijklmnopqrstuvwxyz'' ''ABCDEFGHIJKLMNOPQRSTUVWXYZ'') ch of
        Some u \<Rightarrow> u | None \<Rightarrow> ch)"

definition lower_char :: "char \<Rightarrow> char" where
  "lower_char ch =
     (case map_of (zip ''ABCDEFGHIJKLMNOPQRSTUVWXYZ'' ''abcdefghijklmnopqrstuvwxyz'') ch of
        Some l \<Rightarrow> l | None \<Rightarrow> ch)"

definition str_upper :: "string \<Rightarrow> string" where
  "str_upper s = map upper_char s"

definition str_lower :: "string \<Rightarrow> string" where
  "str_lower s = map lower_char s"

text \<open>\<^verbatim>\<open>_safe_output_extension\<close>.\<close>

definition safe_output_extension :: "string \<Rightarrow> string" where
  "safe_output_extension fmt0 =
     (let fmt = str_upper fmt0
      in if fmt = ''JPEG'' then ''jpg''
         else if fmt = ''PNG'' then ''png''
         else if fmt = ''WEBP'' then ''webp''
         else str_lower fmt)"

subsection \<open>The request and the libraries\<close>

text \<open>
  The uploaded file part: its name, the bytes of its stream, and whether the block that
  measures the stream with \<^verbatim>\<open>seek\<close> and \<^verbatim>\<open>tell\<close> raises.
\<close>

record file_storage =
  fs_filename :: string
  fs_stream :: bytes
  fs_measure_raises :: bool

record compress_request =
  files_file :: "file_storage option"
  form_format :: "string option"
  form_quality :: "string option"

text \<open>
  A Pillow image is known here by its mode, its size and its pixel data.  The modes of
  Pillow that carry an alpha band are \<^verbatim>\<open>RGBA\<close>, \<^verbatim>\<open>LA\<close>, \<^verbatim>\<open>PA\<close>, \<^verbatim>\<open>RGBa\<close>
  and \<^verbatim>\<open>La\<close>; \<^verbatim>\<open>P\<close> is the palette mode.
\<close>

record image =
  img_mode :: string
  img_size :: "nat \<times> nat"
  img_data :: "nat list"

definition mode_has_alpha :: "string \<Rightarrow> bool" where
  "mode_has_alpha m = (m \<in> {''RGBA'', ''LA'', ''PA'', ''RGBa'', ''La''})"

definition mode_is_palette :: "string \<Rightarrow> bool" where
  "mode_is_palette m = (m = ''P'')"

fun str_of_error :: "pil_error \<Rightarrow> string" where
  "str_of_error (UnidentifiedImageError msg) = msg"
| "str_of_error (OtherError msg) = msg"

record save_kwargs =
  kw_format :: string
  kw_quality :: "int option"
  kw_optimize :: "bool option"
  kw_compress_level :: "int option"

text \<open>
  What the source calls and does not define: Python's \<^verbatim>\<open>int\<close> on a form field
  (\<open>None\<close> when it raises \<^verbatim>\<open>ValueError\<close>), and Pillow.  Each call into Pillow that
  the source guards with its own \<^verbatim>\<open>try\<close> has its own outcome here: the first
  \<^verbatim>\<open>Image.open\<close>, \<^verbatim>\<open>verify\<close>, the second \<^verbatim>\<open>Image.open\<close>, and \<^verbatim>\<open>save\<close>.
  \<^verbatim>\<open>convert\<close> loads the pixel data, so it can raise as well (a truncated file
  raises \<^verbatim>\<open>OSError\<close> there); when it returns, the image has the requested mode and
  the same size.  The calls on the streams outside the measuring block
  (\<^verbatim>\<open>file.stream.seek(0)\<close>, \<^verbatim>\<open>img_io.seek(0)\<close>) are taken to return.
\<close>

record externals =
  int_of_str :: "string \<Rightarrow> int option"
  open_first :: "bytes \<Rightarrow> pil_error + image"
  verify :: "image \<Rightarrow> pil_error option"
  open_again :: "bytes \<Rightarrow> pil_error + image"
  convert :: "image \<Rightarrow> string \<Rightarrow> pil_error + nat list"
  save :: "image \<Rightarrow> save_kwargs \<Rightarrow> pil_error + bytes"

definition img_convert :: "externals \<Rightarrow> image \<Rightarrow> string \<Rightarrow> pil_error + image" where
  "img_convert ext img m =
     (case convert ext img m of
        Inl e \<Rightarrow> Inl e
      | Inr pixels \<Rightarrow> Inr (img\<lparr>img_mode := m, img_data := pixels\<rparr>))"

subsection \<open>The steps of \<^verbatim>\<open>compress_image\<close>\<close>

text \<open>Lines 103 to 106: the requested format, \<^verbatim>\<open>JPEG\<close> when missing or empty.\<close>

definition requested_format :: "compress_request \<Rightarrow> string" where
  "requested_format req =
     str_upper (case form_format req of
                  None \<Rightarrow> ''JPEG''
                | Some s \<Rightarrow> if s = [] then ''JPEG'' else s)"

text \<open>Lines 108 to 111: the quality field read as an integer, with its default.\<close>

definition parse_quality :: "(string \<Rightarrow> int option) \<Rightarrow> string option \<Rightarrow> int" where
  "parse_quality to_int field =
     (case field of
        None \<Rightarrow> DEFAULT_QUALITY
      | Some s \<Rightarrow> (case to_int s of Some n \<Rightarrow> n | None \<Rightarrow> DEFAULT_QUALITY))"

text \<open>Line 114.\<close>

definition clamp_quality :: "int \<Rightarrow> int" where
  "clamp_quality q = max MIN_QUALITY (min MAX_QUALITY q)"

text \<open>Lines 117 to 125: the size of the upload in kilobytes.\<close>

definition measure_orig_size_kb :: "file_storage \<Rightarrow> rat" where
  "measure_orig_size_kb file =
     (if fs_measure_raises file then 0
      else float_div (float_of_int (int (length (fs_stream file)))) 1024)"

text \<open>Lines 128 to 136: the first open and the verification, in one \<^verbatim>\<open>try\<close>.\<close>

definition open_and_verify :: "externals \<Rightarrow> bytes \<Rightarrow> pil_error option" where
  "open_and_verify ext stream =
     (case open_first ext stream of
        Inl e \<Rightarrow> Some e
      | Inr img \<Rightarrow> verify ext img)"

text \<open>
  Lines 146 to 148; the call of \<^verbatim>\<open>convert\<close> is outside every \<^verbatim>\<open>try\<close>, so what
  it raises is not caught.
\<close>

definition flatten_if_needed :: "externals \<Rightarrow> image \<Rightarrow> string \<Rightarrow> pil_error + image" where
  "flatten_if_needed ext img out_format =
     (if img_mode img \<in> {''RGBA'', ''P''} \<and> out_format \<noteq> ''PNG''
      then img_convert ext img ''RGB''
      else Inr img)"

text \<open>Line 160.\<close>

definition png_compress_level :: "int \<Rightarrow> int" where
  "png_compress_level q =
     max 0 (min 9 (py_round (float_div (float_of_int (100 - q)) (float_div 100 9))))"

text \<open>Lines 152 to 162.\<close>

definition build_save_kwargs :: "string \<Rightarrow> int \<Rightarrow> save_kwargs" where
  "build_save_kwargs out_format q =
     (let kw = \<lparr>kw_format = out_format, kw_quality = None, kw_optimize = None,
                kw_compress_level = None\<rparr>
      in if out_format \<in> {''JPEG'', ''WEBP''}
         then kw\<lparr>kw_quality := Some q, kw_optimize := Some True\<rparr>
         else if out_format = ''PNG''
         then kw\<lparr>kw_optimize := Some True, kw_compress_level := Some (png_compress_level q)\<rparr>
         else kw)"

text \<open>Lines 173 to 177.\<close>

definition compression_percent :: "rat \<Rightarrow> rat \<Rightarrow> py_exception + rat" where
  "compression_percent orig_size_kb compressed_size_kb =
     (if 0 < orig_size_kb
      then float_truediv (float_mul 100 (float_sub orig_size_kb compressed_size_kb)) orig_size_kb
      else Inr 0)"

text \<open>
  Lines 179 to 203: the entry is stored under the id that \<^verbatim>\<open>_generate_download_id\<close>
  drew, and the page is rendered with the result.
\<close>

definition publish ::
    "download_cache \<Rightarrow> string \<Rightarrow> int \<Rightarrow> rat \<Rightarrow> bytes \<Rightarrow> rat \<Rightarrow> rat \<Rightarrow> datetime \<Rightarrow> string
       \<Rightarrow> response \<times> download_cache" where
  "publish c out_format q orig_size_kb compressed_bytes compressed_size_kb pct now new_id =
     (let ext = safe_output_extension out_format;
          fname = ''compressed.'' @ ext;
          mimetype = ''image/'' @ (if ext \<noteq> ''jpg'' then ext else ''jpeg'');
          expiry = now + timedelta_seconds DOWNLOAD_CACHE_TTL_SECONDS;
          c' = AList.update new_id
                 \<lparr>entry_bytes = compressed_bytes, entry_mimetype = mimetype,
                  entry_filename = fname, entry_expiry = expiry\<rparr> c;
          res = \<lparr>res_original_kb = py_round_ndigits orig_size_kb 2,
                 res_compressed_kb = py_round_ndigits compressed_size_kb 2,
                 res_percent = py_round_ndigits pct 2,
                 res_format = out_format,
                 res_quality = q,
                 res_download_id = new_id,
                 res_filename = fname\<rparr>
      in (RenderIndex (Some res), c'))"

subsection \<open>\<^verbatim>\<open>compress_image\<close>\<close>

text \<open>
  The arguments after the request are the cache, the clock read by the cleanup, the clock
  read for the expiry, and the id drawn by \<^verbatim>\<open>uuid.uuid4\<close>.
\<close>

definition compress_image ::
    "externals \<Rightarrow> compress_request \<Rightarrow> download_cache \<Rightarrow> datetime \<Rightarrow> datetime \<Rightarrow> string
       \<Rightarrow> response \<times> download_cache" where
  "compress_image ext req c now1 now2 new_id =
     (let c1 = cleanup_expired_cache c now1
      in (case files_file req of
            None \<Rightarrow> (FlashErrorRedirect ''No file part in request.'', c1)
          | Some file \<Rightarrow>
             (if fs_filename file = [] then (FlashErrorRedirect ''No file selected.'', c1)
              else
               (let out_format = requested_format req
                in (if out_format \<notin> ALLOWED_OUTPUT_FORMATS
                    then (FlashErrorRedirect ''Unsupported output format selected.'', c1)
                    else
                     (let q = clamp_quality (parse_quality (int_of_str ext) (form_quality req));
                          orig_size_kb = measure_orig_size_kb file
                      in (case open_and_verify ext (fs_stream file) of
                            Some (UnidentifiedImageError _) \<Rightarrow>
                              (FlashErrorRedirect ''Uploaded file is not a valid image.'', c1)
                          | Some (OtherError msg) \<Rightarrow>
                              (FlashErrorRedirect (''Error validating image: '' @ msg), c1)
                          | None \<Rightarrow>
                             (case open_again ext (fs_stream file) of
                                Inl e \<Rightarrow>
                                  (FlashErrorRedirect
                                     (''Cannot open image after verification: '' @ str_of_error e),
                                   c1)
                              | Inr img0 \<Rightarrow>
                                 (case flatten_if_needed ext img0 out_format of
                                    Inl e \<Rightarrow> (InternalServerError (PillowError e), c1)
                                  | Inr img \<Rightarrow>
                                     (case save ext img (build_save_kwargs out_format q) of
                                        Inl e \<Rightarrow>
                                          (FlashErrorRedirect
                                             (''Error saving compressed image: '' @ str_of_error e),
                                           c1)
                                      | Inr compressed_bytes \<Rightarrow>
                                         (let compressed_size_kb =
                                                float_div
                                                  (float_of_int (int (length compressed_bytes))) 1024
                                          in (case compression_percent orig_size_kb
                                                     compressed_size_kb of
                                                Inl e \<Rightarrow> (InternalServerError e, c1)
                                              | Inr pct \<Rightarrow>
                                                  publish c1 out_format q orig_size_kb
                                                    compressed_bytes compressed_size_kb pct now2
                                                    new_id))))))))))))"

section \<open>The application as a transition system\<close>

text \<open>
  A request carries what the handler reads from outside the cache: the clock, the drawn
  id, the form and the libraries.
\<close>

datatype request =
    GetIndex datetime
  | PostCompress externals compress_request datetime datetime string
  | GetDownload string datetime datetime

fun handle :: "download_cache \<Rightarrow> request \<Rightarrow> response \<times> download_cache" where
  "handle c (GetIndex now) = index c now"
| "handle c (PostCompress ext req now1 now2 new_id) = compress_image ext req c now1 now2 new_id"
| "handle c (GetDownload k now1 now2) = download_image c k now1 now2"

fun run :: "download_cache \<Rightarrow> request list \<Rightarrow> download_cache" where
  "run c [] = c"
| "run c (r # rs) = run (snd (handle c r)) rs"

text \<open>The ids that a list of requests stores entries under.\<close>

fun drawn_id :: "request \<Rightarrow> string option" where
  "drawn_id (PostCompress _ _ _ _ new_id) = Some new_id"
| "drawn_id _ = None"


section \<open>Notions used in the statements\<close>

text \<open>
  The failures of validation and transcoding, after which nothing is published: no file
  part, an empty file name, an output format outside the allowed set, an image that does
  not open or verify, an image that does not open again, a conversion that raises, and an
  encoder that raises.
\<close>

definition upload_fails :: "externals \<Rightarrow> compress_request \<Rightarrow> bool" where
  "upload_fails ext req =
     (case files_file req of
        None \<Rightarrow> True
      | Some file \<Rightarrow>
          fs_filename file = [] \<or>
          requested_format req \<notin> ALLOWED_OUTPUT_FORMATS \<or>
          open_and_verify ext (fs_stream file) \<noteq> None \<or>
          (case open_again ext (fs_stream file) of
             Inl _ \<Rightarrow> True
           | Inr img0 \<Rightarrow>
               (case flatten_if_needed ext img0 (requested_format req) of
                  Inl _ \<Rightarrow> True
                | Inr img \<Rightarrow>
                    isl (save ext img
                           (build_save_kwargs (requested_format req)
                              (clamp_quality
                                 (parse_quality (int_of_str ext) (form_quality req))))))))"

text \<open>
  Among them, the conversion that raises: the request has passed every check before line
  147, the image is of mode \<^verbatim>\<open>RGBA\<close> or \<^verbatim>\<open>P\<close>, the format is not PNG, and
  \<^verbatim>\<open>convert\<close> raises.
\<close>

definition convert_raises :: "externals \<Rightarrow> compress_request \<Rightarrow> bool" where
  "convert_raises ext req =
     (case files_file req of
        None \<Rightarrow> False
      | Some file \<Rightarrow>
          fs_filename file \<noteq> [] \<and>
          requested_format req \<in> ALLOWED_OUTPUT_FORMATS \<and>
          open_and_verify ext (fs_stream file) = None \<and>
          (case open_again ext (fs_stream file) of
             Inl _ \<Rightarrow> False
           | Inr img0 \<Rightarrow> isl (flatten_if_needed ext img0 (requested_format req))))"


text \<open>The file names and MIME types of the three output formats.\<close>

definition output_naming :: "(string \<times> string \<times> string) list" where
  "output_naming =
     [(''JPEG'', ''compressed.jpg'', ''image/jpeg''),
      (''PNG'', ''compressed.png'', ''image/png''),
      (''WEBP'', ''compressed.webp'', ''image/webp'')]"


section \<open>Example inputs\<close>

text \<open>
  An entry as \<^verbatim>\<open>compress_image\<close> stores it for a PNG of four bytes, with a given expiry; a
  file part holding given bytes; and libraries under which the empty stream is not an
  image, every other stream opens as an image of a given mode, conversion keeps the
  pixel data, and saving returns the pixel data.
\<close>

definition example_entry :: "datetime \<Rightarrow> DownloadEntry" where
  "example_entry t =
     \<lparr>entry_bytes = [137, 80, 78, 71], entry_mimetype = ''image/png'',
      entry_filename = ''compressed.png'', entry_expiry = t\<rparr>"

definition example_file :: "bytes \<Rightarrow> file_storage" where
  "example_file b = \<lparr>fs_filename = ''photo.png'', fs_stream = b, fs_measure_raises = False\<rparr>"

definition example_request :: "bytes \<Rightarrow> string \<Rightarrow> string \<Rightarrow> compress_request" where
  "example_request b fmt q =
     \<lparr>files_file = Some (example_file b), form_format = Some fmt, form_quality = Some q\<rparr>"

definition example_open :: "string \<Rightarrow> bytes \<Rightarrow> pil_error + image" where
  "example_open m b =
     (if b = [] then Inl (UnidentifiedImageError ''cannot identify image file'')
      else Inr \<lparr>img_mode = m, img_size = (1, 1), img_data = b\<rparr>)"

definition example_externals :: "string \<Rightarrow> externals" where
  "example_externals m =
     \<lparr>int_of_str = map_of [(''80'', 80), (''250'', 250), (''-3'', - 3)],
      open_first = example_open m,
      verify = (\<lambda>_. None),
      open_again = example_open m,
      convert = (\<lambda>img _. Inr (img_data img)),
      save = (\<lambda>img _. Inr (img_data img))\<rparr>"

section \<open>Facts about the cache operations\<close>

lemma fold_delete_filter:
  "fold AList.delete ks c = filter (\<lambda>p. fst p \<notin> set ks) c"
proof (induction ks arbitrary: c)
  case Nil
  then show ?case by simp
next
  case (Cons k ks)
  have "filter (\<lambda>p. fst p \<notin> set ks) (AList.delete k c) = filter (\<lambda>p. fst p \<notin> set (k # ks)) c"
    by (induction c) (auto simp: AList.delete_eq)
  with Cons show ?case by simp
qed

lemma expired_keys_iff:
  "k \<in> set (expired_keys c now) \<longleftrightarrow> (\<exists>e. (k, e) \<in> set c \<and> entry_expiry e \<le> now)"
  unfolding expired_keys_def
  by (induction c) auto

lemma cleanup_subset: "set (cleanup_expired_cache c now) \<subseteq> set c"
  by (simp add: cleanup_expired_cache_def fold_delete_filter)

lemma cleanup_keys_subset:
  "fst ` set (cleanup_expired_cache c now) \<subseteq> fst ` set c"
  using cleanup_subset by blast

lemma cleanup_wf: "wf_cache c \<Longrightarrow> wf_cache (cleanup_expired_cache c now)"
  by (simp add: wf_cache_def cleanup_expired_cache_def fold_delete_filter distinct_map_filter)

lemma wf_unique: "wf_cache c \<Longrightarrow> (k, e) \<in> set c \<Longrightarrow> (k, e') \<in> set c \<Longrightarrow> e = e'"
  unfolding wf_cache_def by (rule eq_key_imp_eq_value)

lemma cleanup_distinct_filter:
  assumes "wf_cache c"
  shows "cleanup_expired_cache c now = filter (\<lambda>(k, e). \<not> entry_expiry e \<le> now) c"
proof -
  have "(fst p \<notin> set (expired_keys c now)) = (case p of (k, e) \<Rightarrow> \<not> entry_expiry e \<le> now)"
    if "p \<in> set c" for p
  proof (cases p)
    case (Pair k e)
    with that have in_c: "(k, e) \<in> set c" by simp
    have "k \<in> set (expired_keys c now) \<longleftrightarrow> entry_expiry e \<le> now"
    proof
      assume "k \<in> set (expired_keys c now)"
      then obtain e' where "(k, e') \<in> set c" "entry_expiry e' \<le> now"
        unfolding expired_keys_iff by blast
      with wf_unique [OF assms in_c] show "entry_expiry e \<le> now" by blast
    next
      assume "entry_expiry e \<le> now"
      with in_c show "k \<in> set (expired_keys c now)"
        unfolding expired_keys_iff by blast
    qed
    with Pair show ?thesis by simp
  qed
  then have "filter (\<lambda>p. fst p \<notin> set (expired_keys c now)) c
      = filter (\<lambda>(k, e). \<not> entry_expiry e \<le> now) c"
    by (rule filter_cong [OF refl])
  then show ?thesis
    by (simp only: cleanup_expired_cache_def fold_delete_filter)
qed

lemma cleanup_set:
  "wf_cache c \<Longrightarrow> set (cleanup_expired_cache c now) = {p \<in> set c. \<not> entry_expiry (snd p) \<le> now}"
  by (auto simp: cleanup_distinct_filter)

lemma wf_map_of: "wf_cache c \<Longrightarrow> map_of c k = Some e \<longleftrightarrow> (k, e) \<in> set c"
  by (simp add: wf_cache_def)

lemma map_of_None_keys: "map_of c k = None \<longleftrightarrow> k \<notin> fst ` set c"
  by (simp add: map_of_eq_None_iff)

lemma cleanup_map_of_Some:
  assumes "wf_cache c"
  shows "map_of (cleanup_expired_cache c now) k = Some e
           \<longleftrightarrow> map_of c k = Some e \<and> \<not> entry_expiry e \<le> now"
  using assms cleanup_wf [OF assms, of now]
  by (simp add: wf_map_of cleanup_set)

lemma cleanup_map_of_expired:
  assumes "map_of c k = Some e" and "entry_expiry e \<le> now"
  shows "map_of (cleanup_expired_cache c now) k = None"
proof -
  from assms(1) have "(k, e) \<in> set c" by (rule map_of_SomeD)
  with assms(2) have "k \<in> set (expired_keys c now)"
    unfolding expired_keys_iff by blast
  then have "k \<notin> fst ` set (cleanup_expired_cache c now)"
    unfolding cleanup_expired_cache_def fold_delete_filter by auto
  then show ?thesis by (simp add: map_of_None_keys)
qed

lemma cleanup_map_of_absent:
  assumes "map_of c k = None"
  shows "map_of (cleanup_expired_cache c now) k = None"
  using assms cleanup_keys_subset [of c now] unfolding map_of_None_keys by blast

lemma download_cache_after:
  "snd (download_image c k t1 t2) = AList.delete k (cleanup_expired_cache c t1)"
  by (simp add: download_image_def cache_pop_def Let_def split: option.split)

lemma download_removes_key: "k \<notin> fst ` set (snd (download_image c k t1 t2))"
  unfolding download_cache_after by (rule delete_notin_dom)

lemma download_keys_subset: "fst ` set (snd (download_image c k t1 t2)) \<subseteq> fst ` set c"
  unfolding download_cache_after
  using dom_delete_subset [of k "cleanup_expired_cache c t1"] cleanup_keys_subset [of c t1]
  by blast

lemma download_wf: "wf_cache c \<Longrightarrow> wf_cache (snd (download_image c k t1 t2))"
  unfolding download_cache_after
  using cleanup_wf [of c t1] by (simp add: wf_cache_def distinct_delete)

lemma download_not_found:
  assumes "map_of (cleanup_expired_cache c t1) k = None"
  shows "fst (download_image c k t1 t2)
           = FlashErrorRedirect ''Download is no longer available or has expired.''"
  using assms by (simp add: download_image_def cache_pop_def Let_def)

lemma download_found:
  assumes "map_of (cleanup_expired_cache c t1) k = Some e"
  shows "fst (download_image c k t1 t2)
           = (if entry_expiry e \<le> t2 then FlashErrorRedirect ''Download has expired.''
              else SendFile (entry_bytes e) (entry_mimetype e) (entry_filename e))"
  using assms by (simp add: download_image_def cache_pop_def Let_def)

lemma download_absent:
  assumes "k \<notin> fst ` set c"
  shows "fst (download_image c k t1 t2)
           = FlashErrorRedirect ''Download is no longer available or has expired.''"
proof (rule download_not_found)
  from assms have "map_of c k = None" by (simp add: map_of_None_keys)
  then show "map_of (cleanup_expired_cache c t1) k = None" by (rule cleanup_map_of_absent)
qed

lemma index_keys_subset: "fst ` set (snd (index c now)) \<subseteq> fst ` set c"
  by (simp add: index_def cleanup_keys_subset)

lemma index_wf: "wf_cache c \<Longrightarrow> wf_cache (snd (index c now))"
  by (simp add: index_def cleanup_wf)

lemma compression_percent_returns: "\<exists>p. compression_percent a b = Inr p"
  by (simp add: compression_percent_def float_truediv_def)

lemma publish_response:
  "\<exists>r. fst (publish c fmt q okb cb ckb pct now nid) = RenderIndex (Some r) \<and> res_download_id r = nid
        \<and> res_quality r = q \<and> res_format r = fmt"
  by (simp add: publish_def Let_def)

lemma publish_cache:
  "snd (publish c fmt q okb cb ckb pct now nid)
     = AList.update nid
         \<lparr>entry_bytes = cb,
          entry_mimetype = ''image/'' @ (if safe_output_extension fmt \<noteq> ''jpg''
                                        then safe_output_extension fmt else ''jpeg''),
          entry_filename = ''compressed.'' @ safe_output_extension fmt,
          entry_expiry = now + timedelta_seconds DOWNLOAD_CACHE_TTL_SECONDS\<rparr> c"
  by (simp add: publish_def Let_def)

lemma convert_raises_fails: "convert_raises ext req \<Longrightarrow> upload_fails ext req"
  by (auto simp: convert_raises_def upload_fails_def split: option.splits sum.splits)

lemma compress_image_convert_raises:
  assumes "convert_raises ext req"
  shows "\<exists>e. compress_image ext req c n1 n2 nid
           = (InternalServerError (PillowError e), cleanup_expired_cache c n1)"
  using assms
  by (auto simp: convert_raises_def compress_image_def Let_def
           split: option.splits sum.splits)

lemma compress_image_guarded_failure:
  assumes "upload_fails ext req" and "\<not> convert_raises ext req"
  shows "\<exists>m. m \<noteq> [] \<and>
           compress_image ext req c n1 n2 nid = (FlashErrorRedirect m, cleanup_expired_cache c n1)"
  using assms
  by (auto simp: upload_fails_def convert_raises_def compress_image_def Let_def
           split: option.splits sum.splits pil_error.splits)

lemma compress_image_failure:
  assumes "upload_fails ext req"
  shows "snd (compress_image ext req c n1 n2 nid) = cleanup_expired_cache c n1"
    and "fst (compress_image ext req c n1 n2 nid) \<noteq> RenderIndex (Some r)"
proof -
  have "(\<exists>m. compress_image ext req c n1 n2 nid = (FlashErrorRedirect m, cleanup_expired_cache c n1))
      \<or> (\<exists>e. compress_image ext req c n1 n2 nid
             = (InternalServerError (PillowError e), cleanup_expired_cache c n1))"
    using compress_image_convert_raises [of ext req c n1 n2 nid]
      compress_image_guarded_failure [OF assms, of c n1 n2 nid]
    by blast
  then show "snd (compress_image ext req c n1 n2 nid) = cleanup_expired_cache c n1"
    and "fst (compress_image ext req c n1 n2 nid) \<noteq> RenderIndex (Some r)"
    by auto
qed

lemma compress_image_success:
  assumes "\<not> upload_fails ext req"
  shows "\<exists>file img0 img cb okb ckb pct.
           files_file req = Some file \<and> fs_filename file \<noteq> [] \<and>
           requested_format req \<in> ALLOWED_OUTPUT_FORMATS \<and>
           open_again ext (fs_stream file) = Inr img0 \<and>
           flatten_if_needed ext img0 (requested_format req) = Inr img \<and>
           save ext img
             (build_save_kwargs (requested_format req)
                (clamp_quality (parse_quality (int_of_str ext) (form_quality req)))) = Inr cb \<and>
           okb = measure_orig_size_kb file \<and>
           ckb = float_div (float_of_int (int (length cb))) 1024 \<and>
           compression_percent okb ckb = Inr pct \<and>
           compress_image ext req c n1 n2 nid
             = publish (cleanup_expired_cache c n1) (requested_format req)
                 (clamp_quality (parse_quality (int_of_str ext) (form_quality req)))
                 okb cb ckb pct n2 nid"
proof -
  let ?kw = "build_save_kwargs (requested_format req)
                (clamp_quality (parse_quality (int_of_str ext) (form_quality req)))"
  from assms obtain upl where ff: "files_file req = Some upl"
    by (auto simp: upload_fails_def split: option.splits)
  from assms ff have name: "fs_filename upl \<noteq> []"
    and fmt: "requested_format req \<in> ALLOWED_OUTPUT_FORMATS"
    and ov: "open_and_verify ext (fs_stream upl) = None"
    by (auto simp: upload_fails_def)
  from assms ff name fmt ov obtain img0 where img0: "open_again ext (fs_stream upl) = Inr img0"
    by (auto simp: upload_fails_def split: sum.splits)
  with assms ff name fmt ov obtain img where
    img: "flatten_if_needed ext img0 (requested_format req) = Inr img"
    by (cases "flatten_if_needed ext img0 (requested_format req)")
       (auto simp: upload_fails_def)
  with assms ff name fmt ov img0 obtain cb where cb: "save ext img ?kw = Inr cb"
    by (cases "save ext img ?kw") (auto simp: upload_fails_def)
  obtain pct where pct: "compression_percent (measure_orig_size_kb upl)
      (float_div (float_of_int (int (length cb))) 1024) = Inr pct"
    using compression_percent_returns by blast
  have "compress_image ext req c n1 n2 nid
             = publish (cleanup_expired_cache c n1) (requested_format req)
                 (clamp_quality (parse_quality (int_of_str ext) (form_quality req)))
                 (measure_orig_size_kb upl) cb (float_div (float_of_int (int (length cb))) 1024)
                 pct n2 nid"
    using ff name fmt ov img0 img cb pct by (simp add: compress_image_def Let_def)
  with ff name fmt img0 img cb pct show ?thesis by blast
qed

section \<open>Downloads\<close>

lemma handle_keys:
  assumes "k \<in> fst ` set (snd (handle c r))"
  shows "k \<in> fst ` set c \<or> drawn_id r = Some k"
proof (cases r)
  case (GetIndex now)
  with assms index_keys_subset [of c now] show ?thesis by auto
next
  case (PostCompress ext req n1 n2 nid)
  show ?thesis
  proof (cases "upload_fails ext req")
    case True
    from compress_image_failure(1) [OF True, of c n1 n2 nid]
    have "snd (handle c r) = cleanup_expired_cache c n1"
      unfolding PostCompress by simp
    with assms cleanup_keys_subset [of c n1] show ?thesis by auto
  next
    case False
    from compress_image_success [OF False, of c n1 n2 nid]
    obtain fmt q okb cb ckb pct where
      "snd (handle c r) = snd (publish (cleanup_expired_cache c n1) fmt q okb cb ckb pct n2 nid)"
      unfolding PostCompress by auto
    with assms have "k \<in> {nid} \<union> fst ` set (cleanup_expired_cache c n1)"
      by (simp only: publish_cache dom_update)
    with cleanup_keys_subset [of c n1] show ?thesis
      unfolding PostCompress by auto
  qed
next
  case (GetDownload k' n1 n2)
  with assms download_keys_subset [of c k' n1 n2] show ?thesis by auto
qed

lemma run_keeps_absent:
  assumes "k \<notin> fst ` set c" and "\<forall>r \<in> set rs. drawn_id r \<noteq> Some k"
  shows "k \<notin> fst ` set (run c rs)"
  using assms
proof (induction rs arbitrary: c)
  case Nil
  then show ?case by simp
next
  case (Cons r rs)
  from Cons.prems have "drawn_id r \<noteq> Some k" by simp
  with handle_keys [of k c r] Cons.prems(1) have "k \<notin> fst ` set (snd (handle c r))"
    by blast
  with Cons.IH [of "snd (handle c r)"] Cons.prems(2) show ?case by simp
qed

text \<open>
  C1.  A download of an id whose entry is in the cache and has not expired at either
  clock reading sends the stored bytes, MIME type and file name.  A second download of
  the same id, directly after the first or after any requests that do not draw that id
  for a new entry, finds nothing: the entry is consumed once and does not come back.
\<close>

theorem download_consumes_once:
  assumes "wf_cache c" and "\<forall>r \<in> set rs. drawn_id r \<noteq> Some k"
  shows "(map_of c k = Some e \<and> t1 < entry_expiry e \<and> t2 < entry_expiry e
            \<longrightarrow> fst (download_image c k t1 t2)
                  = SendFile (entry_bytes e) (entry_mimetype e) (entry_filename e))
       \<and> fst (download_image (snd (download_image c k t1 t2)) k t3 t4)
           = FlashErrorRedirect ''Download is no longer available or has expired.''
       \<and> fst (download_image (run (snd (download_image c k t1 t2)) rs) k t5 t6)
           = FlashErrorRedirect ''Download is no longer available or has expired.''"
proof (intro conjI impI)
  assume a: "map_of c k = Some e \<and> t1 < entry_expiry e \<and> t2 < entry_expiry e"
  then have "map_of (cleanup_expired_cache c t1) k = Some e"
    using cleanup_map_of_Some [OF assms(1), of t1 k e] by simp
  from download_found [OF this, of t2] a
  show "fst (download_image c k t1 t2)
          = SendFile (entry_bytes e) (entry_mimetype e) (entry_filename e)"
    by simp
next
  show "fst (download_image (snd (download_image c k t1 t2)) k t3 t4)
          = FlashErrorRedirect ''Download is no longer available or has expired.''"
    by (rule download_absent) (rule download_removes_key)
next
  have "k \<notin> fst ` set (run (snd (download_image c k t1 t2)) rs)"
    using download_removes_key assms(2) by (rule run_keeps_absent)
  then show "fst (download_image (run (snd (download_image c k t1 t2)) rs) k t5 t6)
          = FlashErrorRedirect ''Download is no longer available or has expired.''"
    by (rule download_absent)
qed

theorem download_consumes_once_witness:
  "wf_cache [(''a1'', example_entry 100)]
   \<and> map drawn_id [GetIndex 20, GetDownload ''b2'' 30 31,
                    PostCompress (example_externals ''RGB'') (example_request [1, 2] ''PNG'' ''80'')
                      40 41 ''c3'']
       = [None, None, Some ''c3'']
   \<and> fst (download_image [(''a1'', example_entry 100)] ''a1'' 10 11)
       = SendFile [137, 80, 78, 71] ''image/png'' ''compressed.png''
   \<and> fst (download_image (snd (download_image [(''a1'', example_entry 100)] ''a1'' 10 11))
            ''a1'' 12 13)
       = FlashErrorRedirect ''Download is no longer available or has expired.''
   \<and> fst (download_image
            (run (snd (download_image [(''a1'', example_entry 100)] ''a1'' 10 11))
               [GetIndex 20, GetDownload ''b2'' 30 31,
                PostCompress (example_externals ''RGB'') (example_request [1, 2] ''PNG'' ''80'')
                  40 41 ''c3''])
            ''a1'' 50 51)
       = FlashErrorRedirect ''Download is no longer available or has expired.''"
proof -
  have wf: "wf_cache [(''a1'', example_entry 100)]"
    by (simp add: wf_cache_def)
  have ids: "\<forall>r \<in> set [GetIndex 20, GetDownload ''b2'' 30 31,
                    PostCompress (example_externals ''RGB'') (example_request [1, 2] ''PNG'' ''80'')
                      40 41 ''c3''].
         drawn_id r \<noteq> Some ''a1''"
    by simp
  from download_consumes_once [OF wf ids, of "example_entry 100" 10 11 12 13 50 51]
  show ?thesis
    using wf ids by (simp add: example_entry_def)
qed

section \<open>Expiry\<close>

lemma compress_image_wf:
  assumes "wf_cache c"
  shows "wf_cache (snd (compress_image ext req c n1 n2 nid))"
proof (cases "upload_fails ext req")
  case True
  from compress_image_failure(1) [OF True, of c n1 n2 nid] cleanup_wf [OF assms, of n1]
  show ?thesis by simp
next
  case False
  from compress_image_success [OF False, of c n1 n2 nid]
  obtain fmt q okb cb ckb pct where
    "compress_image ext req c n1 n2 nid
       = publish (cleanup_expired_cache c n1) fmt q okb cb ckb pct n2 nid"
    by auto
  with cleanup_wf [OF assms, of n1] show ?thesis
    by (simp add: publish_cache wf_cache_def distinct_update)
qed

lemma compress_image_stored:
  assumes "\<not> upload_fails ext req"
  shows "\<exists>e. map_of (snd (compress_image ext req c n1 n2 nid)) nid = Some e
           \<and> entry_expiry e = n2 + timedelta_seconds DOWNLOAD_CACHE_TTL_SECONDS
           \<and> entry_filename e = ''compressed.'' @ safe_output_extension (requested_format req)
           \<and> entry_mimetype e
               = ''image/'' @ (if safe_output_extension (requested_format req) \<noteq> ''jpg''
                               then safe_output_extension (requested_format req) else ''jpeg'')"
proof -
  from compress_image_success [OF assms, of c n1 n2 nid]
  obtain q okb cb ckb pct where
    "compress_image ext req c n1 n2 nid
       = publish (cleanup_expired_cache c n1) (requested_format req) q okb cb ckb pct n2 nid"
    by auto
  then show ?thesis
    by (simp add: publish_cache update_conv')
qed

text \<open>
  C2.  A successful compression stores its entry with expiry equal to the clock reading
  of the insertion plus the TTL of 300 seconds.  For an entry of the cache with expiry
  \<open>x\<close>: the sweep keeps exactly the entries whose expiry is after its clock reading; a
  download whose sweep reads a clock at or after \<open>x\<close> ends as not found and the id is
  gone from the cache; a download whose entry passes the sweep and whose second clock
  reading is at or after \<open>x\<close> ends as expired, and the id is gone from the cache as well.
  In particular a download later than insertion time plus TTL never sends the bytes.
\<close>

theorem expired_entries_unavailable:
  assumes "wf_cache c"
  shows "set (cleanup_expired_cache c now) = {p \<in> set c. \<not> entry_expiry (snd p) \<le> now}
    \<and> (map_of c k = Some e \<and> entry_expiry e \<le> t1
           \<longrightarrow> download_image c k t1 t2
                 = (FlashErrorRedirect ''Download is no longer available or has expired.'',
                    cleanup_expired_cache c t1)
               \<and> k \<notin> fst ` set (cleanup_expired_cache c t1))
    \<and> (map_of c k = Some e \<and> \<not> entry_expiry e \<le> t1 \<and> entry_expiry e \<le> t2
           \<longrightarrow> fst (download_image c k t1 t2) = FlashErrorRedirect ''Download has expired.''
               \<and> k \<notin> fst ` set (snd (download_image c k t1 t2)))
    \<and> (\<not> upload_fails ext req \<and> n2 + timedelta_seconds DOWNLOAD_CACHE_TTL_SECONDS < t1
           \<longrightarrow> fst (download_image (snd (compress_image ext req c n1 n2 nid)) nid t1 t2)
                 = FlashErrorRedirect ''Download is no longer available or has expired.''
               \<and> nid \<notin> fst ` set (snd (download_image
                                          (snd (compress_image ext req c n1 n2 nid)) nid t1 t2)))"
proof (intro conjI)
  show "set (cleanup_expired_cache c now) = {p \<in> set c. \<not> entry_expiry (snd p) \<le> now}"
    using assms by (rule cleanup_set)
next
  show "map_of c k = Some e \<and> entry_expiry e \<le> t1
           \<longrightarrow> download_image c k t1 t2
                 = (FlashErrorRedirect ''Download is no longer available or has expired.'',
                    cleanup_expired_cache c t1)
               \<and> k \<notin> fst ` set (cleanup_expired_cache c t1)"
  proof (intro impI)
    assume a: "map_of c k = Some e \<and> entry_expiry e \<le> t1"
    then have none: "map_of (cleanup_expired_cache c t1) k = None"
      using cleanup_map_of_expired [of c k e t1] by simp
    then have absent: "k \<notin> fst ` set (cleanup_expired_cache c t1)"
      by (simp add: map_of_None_keys)
    have "snd (download_image c k t1 t2) = cleanup_expired_cache c t1"
      unfolding download_cache_after using absent by (rule delete_id)
    with download_not_found [OF none, of t2] absent
    show "download_image c k t1 t2
                 = (FlashErrorRedirect ''Download is no longer available or has expired.'',
                    cleanup_expired_cache c t1)
               \<and> k \<notin> fst ` set (cleanup_expired_cache c t1)"
      by (simp add: prod_eq_iff)
  qed
next
  show "map_of c k = Some e \<and> \<not> entry_expiry e \<le> t1 \<and> entry_expiry e \<le> t2
           \<longrightarrow> fst (download_image c k t1 t2) = FlashErrorRedirect ''Download has expired.''
               \<and> k \<notin> fst ` set (snd (download_image c k t1 t2))"
  proof (intro impI conjI)
    assume a: "map_of c k = Some e \<and> \<not> entry_expiry e \<le> t1 \<and> entry_expiry e \<le> t2"
    then have "map_of (cleanup_expired_cache c t1) k = Some e"
      using cleanup_map_of_Some [OF assms, of t1 k e] by simp
    from download_found [OF this, of t2] a
    show "fst (download_image c k t1 t2) = FlashErrorRedirect ''Download has expired.''"
      by simp
  next
    show "k \<notin> fst ` set (snd (download_image c k t1 t2))"
      by (rule download_removes_key)
  qed
next
  show "\<not> upload_fails ext req \<and> n2 + timedelta_seconds DOWNLOAD_CACHE_TTL_SECONDS < t1
           \<longrightarrow> fst (download_image (snd (compress_image ext req c n1 n2 nid)) nid t1 t2)
                 = FlashErrorRedirect ''Download is no longer available or has expired.''
               \<and> nid \<notin> fst ` set (snd (download_image
                                          (snd (compress_image ext req c n1 n2 nid)) nid t1 t2))"
  proof (intro impI conjI)
    assume a: "\<not> upload_fails ext req \<and> n2 + timedelta_seconds DOWNLOAD_CACHE_TTL_SECONDS < t1"
    then obtain e' where e': "map_of (snd (compress_image ext req c n1 n2 nid)) nid = Some e'"
        "entry_expiry e' = n2 + timedelta_seconds DOWNLOAD_CACHE_TTL_SECONDS"
      using compress_image_stored [of ext req c n1 n2 nid] by blast
    with a have "entry_expiry e' \<le> t1" by simp
    with e'(1) have "map_of (cleanup_expired_cache (snd (compress_image ext req c n1 n2 nid)) t1) nid
        = None"
      by (rule cleanup_map_of_expired)
    then show "fst (download_image (snd (compress_image ext req c n1 n2 nid)) nid t1 t2)
                 = FlashErrorRedirect ''Download is no longer available or has expired.''"
      by (rule download_not_found)
  next
    show "nid \<notin> fst ` set (snd (download_image
                                   (snd (compress_image ext req c n1 n2 nid)) nid t1 t2))"
      by (rule download_removes_key)
  qed
qed


theorem expired_entries_unavailable_witness:
  "wf_cache [(''a1'', example_entry 100), (''b2'', example_entry 200)]
   \<and> set (cleanup_expired_cache [(''a1'', example_entry 100), (''b2'', example_entry 200)] 150)
       = {(''b2'', example_entry 200)}
   \<and> download_image [(''a1'', example_entry 100), (''b2'', example_entry 200)] ''a1'' 101 102
       = (FlashErrorRedirect ''Download is no longer available or has expired.'',
          [(''b2'', example_entry 200)])
   \<and> fst (download_image [(''a1'', example_entry 100), (''b2'', example_entry 200)] ''a1'' 99 100)
       = FlashErrorRedirect ''Download has expired.''
   \<and> \<not> upload_fails (example_externals ''RGB'') (example_request [1, 2] ''JPEG'' ''80'')
   \<and> fst (download_image
            (snd (compress_image (example_externals ''RGB'') (example_request [1, 2] ''JPEG'' ''80'')
                    [(''a1'', example_entry 100), (''b2'', example_entry 200)] 10 11 ''c3''))
            ''c3'' 300000012 300000013)
       = FlashErrorRedirect ''Download is no longer available or has expired.''"
proof -
  let ?c = "[(''a1'', example_entry 100), (''b2'', example_entry 200)]"
  have wf: "wf_cache ?c"
    by (simp add: wf_cache_def)
  have ok: "\<not> upload_fails (example_externals ''RGB'') (example_request [1, 2] ''JPEG'' ''80'')"
    by code_simp
  have sweep: "cleanup_expired_cache ?c 150 = [(''b2'', example_entry 200)]"
    "cleanup_expired_cache ?c 101 = [(''b2'', example_entry 200)]"
    by (simp_all add: cleanup_expired_cache_def expired_keys_def example_entry_def)
  note late = expired_entries_unavailable [OF wf, where now = 150 and k = "''a1''"
      and e = "example_entry 100" and ?t1.0 = 101 and ?t2.0 = 102
      and ext = "example_externals ''RGB''" and req = "example_request [1, 2] ''JPEG'' ''80''"
      and ?n1.0 = 10 and ?n2.0 = 11 and nid = "''c3''"]
  note race = expired_entries_unavailable [OF wf, where now = 150 and k = "''a1''"
      and e = "example_entry 100" and ?t1.0 = 99 and ?t2.0 = 100
      and ext = "example_externals ''RGB''" and req = "example_request [1, 2] ''JPEG'' ''80''"
      and ?n1.0 = 10 and ?n2.0 = 11 and nid = "''c3''"]
  note stored = expired_entries_unavailable [OF wf, where now = 150 and k = "''a1''"
      and e = "example_entry 100" and ?t1.0 = 300000012 and ?t2.0 = 300000013
      and ext = "example_externals ''RGB''" and req = "example_request [1, 2] ''JPEG'' ''80''"
      and ?n1.0 = 10 and ?n2.0 = 11 and nid = "''c3''"]
  have e: "map_of ?c ''a1'' = Some (example_entry 100)" "entry_expiry (example_entry 100) = 100"
    by (simp_all add: example_entry_def)
  from late e sweep have p1: "set (cleanup_expired_cache ?c 150) = {(''b2'', example_entry 200)}"
    and p2: "download_image ?c ''a1'' 101 102
       = (FlashErrorRedirect ''Download is no longer available or has expired.'',
          [(''b2'', example_entry 200)])"
    by simp_all
  from race e have p3: "fst (download_image ?c ''a1'' 99 100)
      = FlashErrorRedirect ''Download has expired.''"
    by simp
  from stored ok have p4: "fst (download_image
            (snd (compress_image (example_externals ''RGB'') (example_request [1, 2] ''JPEG'' ''80'')
                    ?c 10 11 ''c3''))
            ''c3'' 300000012 300000013)
       = FlashErrorRedirect ''Download is no longer available or has expired.''"
    by (simp add: timedelta_seconds_def DOWNLOAD_CACHE_TTL_SECONDS_def)
  from wf p1 p2 p3 ok p4 show ?thesis by (intro conjI)
qed

section \<open>The two messages of a failed download\<close>

text \<open>
  C9, as stated, fails: an id that is absent and an id whose entry passes the sweep and
  has expired at the second clock reading get different messages.
\<close>

theorem expired_message_differs:
  "map_of [(''a1'', example_entry 100)] ''a1'' = Some (example_entry 100)
   \<and> entry_expiry (example_entry 100) \<le> 100
   \<and> map_of ([] :: download_cache) ''a1'' = None
   \<and> fst (download_image [(''a1'', example_entry 100)] ''a1'' 99 100)
       = FlashErrorRedirect ''Download has expired.''
   \<and> fst (download_image [] ''a1'' 99 100)
       = FlashErrorRedirect ''Download is no longer available or has expired.''
   \<and> fst (download_image [(''a1'', example_entry 100)] ''a1'' 99 100)
       \<noteq> fst (download_image [] ''a1'' 99 100)"
  by (simp add: download_image_def cleanup_expired_cache_def expired_keys_def cache_pop_def
        example_entry_def)

text \<open>
  C9, amended.  A download whose id is absent from the cache and a download whose id is
  present with an expiry at or before the clock reading of the sweep end in the same way,
  with the message that the download is no longer available or has expired.  A download
  whose entry passes the sweep and has expired at the second clock reading ends with an
  error message too, the message that the download has expired.
\<close>

theorem absent_and_swept_alike:
  "((map_of c k = None \<or> (\<exists>e. map_of c k = Some e \<and> entry_expiry e \<le> t1))
      \<longrightarrow> fst (download_image c k t1 t2)
            = FlashErrorRedirect ''Download is no longer available or has expired.'')
   \<and> (wf_cache c \<and> map_of c k = Some e \<and> \<not> entry_expiry e \<le> t1 \<and> entry_expiry e \<le> t2
      \<longrightarrow> fst (download_image c k t1 t2) = FlashErrorRedirect ''Download has expired.'')"
proof (intro conjI impI)
  assume "map_of c k = None \<or> (\<exists>e. map_of c k = Some e \<and> entry_expiry e \<le> t1)"
  then have "map_of (cleanup_expired_cache c t1) k = None"
    using cleanup_map_of_absent [of c k t1] cleanup_map_of_expired [of c k _ t1] by blast
  then show "fst (download_image c k t1 t2)
            = FlashErrorRedirect ''Download is no longer available or has expired.''"
    by (rule download_not_found)
next
  assume a: "wf_cache c \<and> map_of c k = Some e \<and> \<not> entry_expiry e \<le> t1 \<and> entry_expiry e \<le> t2"
  then have "map_of (cleanup_expired_cache c t1) k = Some e"
    using cleanup_map_of_Some [of c t1 k e] by simp
  from download_found [OF this, of t2] a
  show "fst (download_image c k t1 t2) = FlashErrorRedirect ''Download has expired.''"
    by simp
qed

theorem absent_and_swept_alike_witness:
  "map_of [(''a1'', example_entry 100)] ''b2'' = None
   \<and> fst (download_image [(''a1'', example_entry 100)] ''b2'' 100 101)
       = FlashErrorRedirect ''Download is no longer available or has expired.''
   \<and> map_of [(''a1'', example_entry 100)] ''a1'' = Some (example_entry 100)
   \<and> entry_expiry (example_entry 100) \<le> 100
   \<and> fst (download_image [(''a1'', example_entry 100)] ''a1'' 100 101)
       = FlashErrorRedirect ''Download is no longer available or has expired.''
   \<and> wf_cache [(''a1'', example_entry 100)]
   \<and> fst (download_image [(''a1'', example_entry 100)] ''a1'' 99 100)
       = FlashErrorRedirect ''Download has expired.''"
proof -
  let ?c = "[(''a1'', example_entry 100)]"
  have facts: "map_of ?c ''b2'' = None" "map_of ?c ''a1'' = Some (example_entry 100)"
    "entry_expiry (example_entry 100) = 100" "wf_cache ?c"
    by (simp_all add: example_entry_def wf_cache_def)
  from absent_and_swept_alike [of ?c "''b2''" 100 101] facts
  have p1: "fst (download_image ?c ''b2'' 100 101)
       = FlashErrorRedirect ''Download is no longer available or has expired.''"
    by simp
  from absent_and_swept_alike [of ?c "''a1''" 100 101] facts
  have p2: "fst (download_image ?c ''a1'' 100 101)
       = FlashErrorRedirect ''Download is no longer available or has expired.''"
    by simp
  from absent_and_swept_alike [of ?c "''a1''" 99 100 "example_entry 100"] facts
  have p3: "fst (download_image ?c ''a1'' 99 100) = FlashErrorRedirect ''Download has expired.''"
    by simp
  from facts p1 p2 p3 show ?thesis by simp
qed

section \<open>Failed uploads\<close>

lemma compress_image_succeeds_iff:
  "(\<exists>r. fst (compress_image ext req c n1 n2 nid) = RenderIndex (Some r))
     \<longleftrightarrow> \<not> upload_fails ext req"
proof (cases "upload_fails ext req")
  case True
  from compress_image_failure(2) [OF True, of c n1 n2 nid] True show ?thesis by auto
next
  case False
  from compress_image_success [OF False, of c n1 n2 nid]
  obtain fmt q okb cb ckb pct where
    "compress_image ext req c n1 n2 nid
       = publish (cleanup_expired_cache c n1) fmt q okb cb ckb pct n2 nid"
    by auto
  with publish_response [of "cleanup_expired_cache c n1" fmt q okb cb ckb pct n2 nid] False
  show ?thesis by auto
qed

text \<open>
  What holds of the failures that the source guards.  When the file part is missing, the
  file name is empty, the output format is not allowed, the image does not open or verify,
  the image does not open again, or the encoder raises, the request ends with a non-empty
  error message and a redirect, it carries no result and so no download id, and the cache
  is the one the sweep of expired entries leaves.
\<close>

lemma guarded_failure_flashes:
  assumes "files_file req = None
   \<or> (\<exists>f. files_file req = Some f \<and> fs_filename f = [])
   \<or> requested_format req \<notin> ALLOWED_OUTPUT_FORMATS
   \<or> (\<exists>f e. files_file req = Some f \<and> open_and_verify ext (fs_stream f) = Some e)
   \<or> (\<exists>f e. files_file req = Some f \<and> open_again ext (fs_stream f) = Inl e)
   \<or> (\<exists>f img0 img e. files_file req = Some f \<and> open_again ext (fs_stream f) = Inr img0
         \<and> flatten_if_needed ext img0 (requested_format req) = Inr img
         \<and> save ext img
              (build_save_kwargs (requested_format req)
                 (clamp_quality (parse_quality (int_of_str ext) (form_quality req)))) = Inl e)"
  shows "(\<exists>m. m \<noteq> [] \<and>
          compress_image ext req c n1 n2 nid
            = (FlashErrorRedirect m, cleanup_expired_cache c n1))
       \<and> set (snd (compress_image ext req c n1 n2 nid)) \<subseteq> set c"
proof -
  have "upload_fails ext req \<and> \<not> convert_raises ext req"
  proof (cases "files_file req")
    case None
    then show ?thesis by (simp add: upload_fails_def convert_raises_def)
  next
    case (Some f)
    with assms show ?thesis
      by (auto simp: upload_fails_def convert_raises_def split: sum.splits)
  qed
  with compress_image_guarded_failure [of ext req c n1 n2 nid] cleanup_subset [of c n1]
  show ?thesis by auto
qed

lemma failed_request_leaves_swept_cache:
  assumes "\<forall>r. fst (compress_image ext req c n1 n2 nid) \<noteq> RenderIndex (Some r)"
  shows "snd (compress_image ext req c n1 n2 nid) = cleanup_expired_cache c n1"
proof -
  from assms have "upload_fails ext req"
    using compress_image_succeeds_iff [of ext req c n1 n2 nid] by blast
  then show ?thesis by (rule compress_image_failure(1))
qed

text \<open>
  C8.  The call of \<^verbatim>\<open>convert\<close> at line 148 is the one step of the transcoding that
  no \<^verbatim>\<open>try\<close> guards.  An upload that opens and verifies as an image of mode
  \<^verbatim>\<open>P\<close>, with the output format JPEG, whose pixel data does not load (a truncated
  file) makes \<^verbatim>\<open>convert\<close> raise: the request ends with the uncaught exception and
  status 500, with no error message flashed.  The cache is the one the sweep leaves.
\<close>

theorem convert_failure_uncaught:
  "files_file (example_request [1, 2] ''JPEG'' ''80'') = Some (example_file [1, 2])
   \<and> open_and_verify
        ((example_externals ''P'')
           \<lparr>convert := (\<lambda>_ _. Inl (OtherError ''image file is truncated''))\<rparr>) [1, 2]
       = None
   \<and> open_again
        ((example_externals ''P'')
           \<lparr>convert := (\<lambda>_ _. Inl (OtherError ''image file is truncated''))\<rparr>) [1, 2]
       = Inr \<lparr>img_mode = ''P'', img_size = (1, 1), img_data = [1, 2]\<rparr>
   \<and> compress_image
        ((example_externals ''P'')
           \<lparr>convert := (\<lambda>_ _. Inl (OtherError ''image file is truncated''))\<rparr>)
        (example_request [1, 2] ''JPEG'' ''80'')
        [(''a1'', example_entry 100), (''b2'', example_entry 200)] 150 151 ''c3''
       = (InternalServerError (PillowError (OtherError ''image file is truncated'')),
          [(''b2'', example_entry 200)])"
  by (simp add: compress_image_def example_externals_def example_request_def example_file_def
        example_open_def example_entry_def requested_format_def str_upper_def upper_char_def
        ALLOWED_OUTPUT_FORMATS_def open_and_verify_def cleanup_expired_cache_def
        expired_keys_def flatten_if_needed_def img_convert_def Let_def)

section \<open>Insertion\<close>

lemma update_fresh: "k \<notin> fst ` set al \<Longrightarrow> AList.update k v al = al @ [(k, v)]"
  by (induction al) auto

text \<open>
  C3, as stated, fails: the id is stored as drawn, with no check against the keys of the
  cache.  When the drawn id is the key of a live entry, that entry is replaced and the
  cache does not grow.
\<close>

theorem colliding_id_overwrites:
  "\<not> upload_fails (example_externals ''RGB'') (example_request [1, 2] ''JPEG'' ''80'')
   \<and> cleanup_expired_cache [(''b2'', example_entry 200)] 10 = [(''b2'', example_entry 200)]
   \<and> snd (compress_image (example_externals ''RGB'') (example_request [1, 2] ''JPEG'' ''80'')
            [(''b2'', example_entry 200)] 10 11 ''b2'')
       = [(''b2'', \<lparr>entry_bytes = [1, 2], entry_mimetype = ''image/jpeg'',
                    entry_filename = ''compressed.jpg'', entry_expiry = 300000011\<rparr>)]
   \<and> length (snd (compress_image (example_externals ''RGB'')
                     (example_request [1, 2] ''JPEG'' ''80'')
                     [(''b2'', example_entry 200)] 10 11 ''b2''))
       = length (cleanup_expired_cache [(''b2'', example_entry 200)] 10)
   \<and> map_of (snd (compress_image (example_externals ''RGB'')
                     (example_request [1, 2] ''JPEG'' ''80'')
                     [(''b2'', example_entry 200)] 10 11 ''b2'')) ''b2''
       \<noteq> Some (example_entry 200)"
proof -
  have ok: "\<not> upload_fails (example_externals ''RGB'') (example_request [1, 2] ''JPEG'' ''80'')"
    by code_simp
  have sweep: "cleanup_expired_cache [(''b2'', example_entry 200)] 10 = [(''b2'', example_entry 200)]"
    by (simp add: cleanup_expired_cache_def expired_keys_def example_entry_def)
  have stored: "snd (compress_image (example_externals ''RGB'')
            (example_request [1, 2] ''JPEG'' ''80'') [(''b2'', example_entry 200)] 10 11 ''b2'')
       = [(''b2'', \<lparr>entry_bytes = [1, 2], entry_mimetype = ''image/jpeg'',
                    entry_filename = ''compressed.jpg'', entry_expiry = 300000011\<rparr>)]"
    by code_simp
  show ?thesis
    unfolding stored sweep using ok by (simp add: example_entry_def)
qed

text \<open>
  C3, amended.  On every successful compression the page carries the drawn id, the entry
  is stored under that id with expiry equal to the clock reading of the insertion plus
  the TTL of 300 seconds, and, when the drawn id is not a key of the cache that the sweep
  leaves, the new entry is appended to that cache: the cache grows by exactly one entry
  and every other entry is unchanged.
\<close>

theorem insert_under_drawn_id:
  assumes "\<not> upload_fails ext req"
  shows "(\<exists>r. fst (compress_image ext req c n1 n2 nid) = RenderIndex (Some r)
              \<and> res_download_id r = nid)
       \<and> (\<exists>e. map_of (snd (compress_image ext req c n1 n2 nid)) nid = Some e
              \<and> entry_expiry e = n2 + timedelta_seconds DOWNLOAD_CACHE_TTL_SECONDS)
       \<and> (nid \<notin> fst ` set (cleanup_expired_cache c n1)
            \<longrightarrow> (\<exists>e. snd (compress_image ext req c n1 n2 nid)
                        = cleanup_expired_cache c n1 @ [(nid, e)])
                \<and> length (snd (compress_image ext req c n1 n2 nid))
                    = length (cleanup_expired_cache c n1) + 1
                \<and> (\<forall>k. k \<noteq> nid
                      \<longrightarrow> map_of (snd (compress_image ext req c n1 n2 nid)) k
                            = map_of (cleanup_expired_cache c n1) k))"
proof -
  from compress_image_success [OF assms, of c n1 n2 nid]
  obtain fmt q okb cb ckb pct where
    eq: "compress_image ext req c n1 n2 nid
       = publish (cleanup_expired_cache c n1) fmt q okb cb ckb pct n2 nid"
    by auto
  have "\<exists>r. fst (compress_image ext req c n1 n2 nid) = RenderIndex (Some r)
              \<and> res_download_id r = nid"
    unfolding eq using publish_response [of _ fmt q okb cb ckb pct n2 nid] by blast
  moreover have "\<exists>e. map_of (snd (compress_image ext req c n1 n2 nid)) nid = Some e
              \<and> entry_expiry e = n2 + timedelta_seconds DOWNLOAD_CACHE_TTL_SECONDS"
    using compress_image_stored [OF assms, of c n1 n2 nid] by blast
  moreover have "(\<exists>e. snd (compress_image ext req c n1 n2 nid)
                        = cleanup_expired_cache c n1 @ [(nid, e)])
                \<and> length (snd (compress_image ext req c n1 n2 nid))
                    = length (cleanup_expired_cache c n1) + 1
                \<and> (\<forall>k. k \<noteq> nid
                      \<longrightarrow> map_of (snd (compress_image ext req c n1 n2 nid)) k
                            = map_of (cleanup_expired_cache c n1) k)"
    if fresh: "nid \<notin> fst ` set (cleanup_expired_cache c n1)"
  proof -
    obtain e where upd: "snd (compress_image ext req c n1 n2 nid)
        = AList.update nid e (cleanup_expired_cache c n1)"
      unfolding eq publish_cache by blast
    then have app: "snd (compress_image ext req c n1 n2 nid)
        = cleanup_expired_cache c n1 @ [(nid, e)]"
      using update_fresh [OF fresh] by simp
    have "map_of (snd (compress_image ext req c n1 n2 nid)) k
            = map_of (cleanup_expired_cache c n1) k" if "k \<noteq> nid" for k
      unfolding upd using that by (simp add: update_conv')
    with app show ?thesis by simp
  qed
  ultimately show ?thesis by blast
qed

theorem insert_under_drawn_id_witness:
  "\<not> upload_fails (example_externals ''RGB'') (example_request [1, 2] ''JPEG'' ''80'')
   \<and> ''c3'' \<notin> fst ` set (cleanup_expired_cache [(''b2'', example_entry 200)] 10)
   \<and> (\<exists>r. fst (compress_image (example_externals ''RGB'') (example_request [1, 2] ''JPEG'' ''80'')
                 [(''b2'', example_entry 200)] 10 11 ''c3'') = RenderIndex (Some r)
           \<and> res_download_id r = ''c3'')
   \<and> (\<exists>e. map_of (snd (compress_image (example_externals ''RGB'')
                          (example_request [1, 2] ''JPEG'' ''80'')
                          [(''b2'', example_entry 200)] 10 11 ''c3'')) ''c3'' = Some e
           \<and> entry_expiry e = 300000011)
   \<and> length (snd (compress_image (example_externals ''RGB'')
                     (example_request [1, 2] ''JPEG'' ''80'')
                     [(''b2'', example_entry 200)] 10 11 ''c3''))
       = 2"
proof -
  have ok: "\<not> upload_fails (example_externals ''RGB'') (example_request [1, 2] ''JPEG'' ''80'')"
    by code_simp
  have sweep: "cleanup_expired_cache [(''b2'', example_entry 200)] 10 = [(''b2'', example_entry 200)]"
    by (simp add: cleanup_expired_cache_def expired_keys_def example_entry_def)
  have fresh: "''c3'' \<notin> fst ` set (cleanup_expired_cache [(''b2'', example_entry 200)] 10)"
    unfolding sweep by simp
  from insert_under_drawn_id [OF ok, of "[(''b2'', example_entry 200)]" 10 11 "''c3''"] fresh
  show ?thesis
    using ok by (simp add: sweep timedelta_seconds_def DOWNLOAD_CACHE_TTL_SECONDS_def)
qed

section \<open>File names and MIME types\<close>

lemma str_upper_allowed:
  "str_upper ''JPEG'' = ''JPEG''" "str_upper ''PNG'' = ''PNG''" "str_upper ''WEBP'' = ''WEBP''"
  by (simp_all add: str_upper_def upper_char_def)

lemma safe_output_extension_allowed:
  "safe_output_extension ''JPEG'' = ''jpg''"
  "safe_output_extension ''PNG'' = ''png''"
  "safe_output_extension ''WEBP'' = ''webp''"
  by (simp_all add: safe_output_extension_def str_upper_allowed)

lemma allowed_naming:
  assumes "fmt \<in> ALLOWED_OUTPUT_FORMATS"
  shows "(fmt, ''compressed.'' @ safe_output_extension fmt,
          ''image/'' @ (if safe_output_extension fmt \<noteq> ''jpg''
                        then safe_output_extension fmt else ''jpeg''))
           \<in> set output_naming"
  using assms
  by (auto simp: ALLOWED_OUTPUT_FORMATS_def output_naming_def safe_output_extension_allowed)

lemma set_update_subset: "set (AList.update k v al) \<subseteq> insert (k, v) (set al)"
  by (induction al) auto

lemma set_delete_subset: "set (AList.delete k al) \<subseteq> set al"
  by (auto simp: AList.delete_eq)

lemma handle_entries:
  assumes "(k, e) \<in> set (snd (handle c r))"
  shows "(k, e) \<in> set c \<or> (\<exists>fmt. (fmt, entry_filename e, entry_mimetype e) \<in> set output_naming)"
proof (cases r)
  case (GetIndex now)
  with assms cleanup_subset [of c now] show ?thesis by (auto simp: index_def)
next
  case (PostCompress ext req n1 n2 nid)
  show ?thesis
  proof (cases "upload_fails ext req")
    case True
    from compress_image_failure(1) [OF True, of c n1 n2 nid]
    have "snd (handle c r) = cleanup_expired_cache c n1"
      unfolding PostCompress by simp
    with assms cleanup_subset [of c n1] show ?thesis by auto
  next
    case False
    from compress_image_success [OF False, of c n1 n2 nid]
    obtain q okb cb ckb pct where
      fmt: "requested_format req \<in> ALLOWED_OUTPUT_FORMATS" and
      "snd (handle c r)
         = snd (publish (cleanup_expired_cache c n1) (requested_format req) q okb cb ckb pct n2 nid)"
      unfolding PostCompress by auto
    with assms set_update_subset
    have "(k, e) \<in> set (cleanup_expired_cache c n1)
        \<or> e = \<lparr>entry_bytes = cb,
          entry_mimetype = ''image/'' @ (if safe_output_extension (requested_format req) \<noteq> ''jpg''
                                        then safe_output_extension (requested_format req)
                                        else ''jpeg''),
          entry_filename = ''compressed.'' @ safe_output_extension (requested_format req),
          entry_expiry = n2 + timedelta_seconds DOWNLOAD_CACHE_TTL_SECONDS\<rparr>"
      unfolding publish_cache by fastforce
    then show ?thesis
    proof
      assume "(k, e) \<in> set (cleanup_expired_cache c n1)"
      with cleanup_subset [of c n1] show ?thesis by auto
    next
      assume e: "e = \<lparr>entry_bytes = cb,
          entry_mimetype = ''image/'' @ (if safe_output_extension (requested_format req) \<noteq> ''jpg''
                                        then safe_output_extension (requested_format req)
                                        else ''jpeg''),
          entry_filename = ''compressed.'' @ safe_output_extension (requested_format req),
          entry_expiry = n2 + timedelta_seconds DOWNLOAD_CACHE_TTL_SECONDS\<rparr>"
      from allowed_naming [OF fmt] have "(requested_format req, entry_filename e, entry_mimetype e)
          \<in> set output_naming"
        unfolding e by simp
      then show ?thesis by blast
    qed
  qed
next
  case (GetDownload k' n1 n2)
  with assms set_delete_subset [of k' "cleanup_expired_cache c n1"] cleanup_subset [of c n1]
  show ?thesis
    by (auto simp: download_cache_after)
qed

lemma run_entries:
  assumes "(k, e) \<in> set (run c rs)"
  shows "(k, e) \<in> set c \<or> (\<exists>fmt. (fmt, entry_filename e, entry_mimetype e) \<in> set output_naming)"
  using assms
proof (induction rs arbitrary: c)
  case Nil
  then show ?case by simp
next
  case (Cons r rs)
  then have "(k, e) \<in> set (snd (handle c r))
      \<or> (\<exists>fmt. (fmt, entry_filename e, entry_mimetype e) \<in> set output_naming)"
    by simp
  with handle_entries [of k e c r] show ?case by blast
qed

text \<open>
  C10.  Every entry of a cache that the application reaches from the empty cache has the
  file name and MIME type of one of the three output formats: \<^verbatim>\<open>compressed.jpg\<close> with
  \<^verbatim>\<open>image/jpeg\<close>, \<^verbatim>\<open>compressed.png\<close> with \<^verbatim>\<open>image/png\<close>, or
  \<^verbatim>\<open>compressed.webp\<close> with \<^verbatim>\<open>image/webp\<close>.  The entry that a successful
  compression stores has the pair of the requested output format, whatever the name of
  the uploaded file.
\<close>

theorem stored_names_follow_format:
  "((k, e) \<in> set (run [] rs)
      \<longrightarrow> (entry_filename e, entry_mimetype e)
            \<in> {(''compressed.jpg'', ''image/jpeg''), (''compressed.png'', ''image/png''),
               (''compressed.webp'', ''image/webp'')})
   \<and> (\<not> upload_fails ext req
      \<longrightarrow> (\<exists>e'. map_of (snd (compress_image ext req c n1 n2 nid)) nid = Some e'
             \<and> (requested_format req, entry_filename e', entry_mimetype e')
                 \<in> {(''JPEG'', ''compressed.jpg'', ''image/jpeg''),
                    (''PNG'', ''compressed.png'', ''image/png''),
                    (''WEBP'', ''compressed.webp'', ''image/webp'')}))"
proof (intro conjI impI)
  assume "(k, e) \<in> set (run [] rs)"
  with run_entries [of k e "[]" rs]
  show "(entry_filename e, entry_mimetype e)
            \<in> {(''compressed.jpg'', ''image/jpeg''), (''compressed.png'', ''image/png''),
               (''compressed.webp'', ''image/webp'')}"
    by (auto simp: output_naming_def)
next
  assume ok: "\<not> upload_fails ext req"
  from compress_image_success [OF ok, of c n1 n2 nid]
  have fmt: "requested_format req \<in> ALLOWED_OUTPUT_FORMATS" by auto
  from compress_image_stored [OF ok, of c n1 n2 nid] obtain e' where
    e': "map_of (snd (compress_image ext req c n1 n2 nid)) nid = Some e'"
      "entry_filename e' = ''compressed.'' @ safe_output_extension (requested_format req)"
      "entry_mimetype e'
         = ''image/'' @ (if safe_output_extension (requested_format req) \<noteq> ''jpg''
                         then safe_output_extension (requested_format req) else ''jpeg'')"
    by blast
  from allowed_naming [OF fmt] e'(2,3)
  have "(requested_format req, entry_filename e', entry_mimetype e')
          \<in> {(''JPEG'', ''compressed.jpg'', ''image/jpeg''),
             (''PNG'', ''compressed.png'', ''image/png''),
             (''WEBP'', ''compressed.webp'', ''image/webp'')}"
    by (simp add: output_naming_def)
  with e'(1) show "\<exists>e'. map_of (snd (compress_image ext req c n1 n2 nid)) nid = Some e'
             \<and> (requested_format req, entry_filename e', entry_mimetype e')
                 \<in> {(''JPEG'', ''compressed.jpg'', ''image/jpeg''),
                    (''PNG'', ''compressed.png'', ''image/png''),
                    (''WEBP'', ''compressed.webp'', ''image/webp'')}"
    by blast
qed


theorem stored_names_follow_format_witness:
  "(''c3'', \<lparr>entry_bytes = [1, 2], entry_mimetype = ''image/png'',
             entry_filename = ''compressed.png'', entry_expiry = 300000011\<rparr>)
     \<in> set (run [] [PostCompress (example_externals ''RGB'')
                       (example_request [1, 2] ''png'' ''80'') 10 11 ''c3''])
   \<and> (entry_filename \<lparr>entry_bytes = [1, 2], entry_mimetype = ''image/png'',
             entry_filename = ''compressed.png'', entry_expiry = 300000011\<rparr>,
       entry_mimetype \<lparr>entry_bytes = [1, 2], entry_mimetype = ''image/png'',
             entry_filename = ''compressed.png'', entry_expiry = 300000011\<rparr>)
       \<in> {(''compressed.jpg'', ''image/jpeg''), (''compressed.png'', ''image/png''),
          (''compressed.webp'', ''image/webp'')}
   \<and> \<not> upload_fails (example_externals ''RGB'') (example_request [1, 2] ''png'' ''80'')
   \<and> (\<exists>e'. map_of (snd (compress_image (example_externals ''RGB'')
                           (example_request [1, 2] ''png'' ''80'') [] 10 11 ''c3'')) ''c3''
              = Some e'
           \<and> (requested_format (example_request [1, 2] ''png'' ''80''),
               entry_filename e', entry_mimetype e')
               \<in> {(''JPEG'', ''compressed.jpg'', ''image/jpeg''),
                  (''PNG'', ''compressed.png'', ''image/png''),
                  (''WEBP'', ''compressed.webp'', ''image/webp'')})"
proof -
  let ?e = "\<lparr>entry_bytes = [1, 2], entry_mimetype = ''image/png'',
             entry_filename = ''compressed.png'', entry_expiry = 300000011\<rparr>"
  have stored: "snd (compress_image (example_externals ''RGB'')
        (example_request [1, 2] ''png'' ''80'') [] 10 11 ''c3'') = [(''c3'', ?e)]"
    by code_simp
  then have reach: "(''c3'', ?e) \<in> set (run [] [PostCompress (example_externals ''RGB'')
                       (example_request [1, 2] ''png'' ''80'') 10 11 ''c3''])"
    by simp
  have ok: "\<not> upload_fails (example_externals ''RGB'') (example_request [1, 2] ''png'' ''80'')"
    by code_simp
  note th = stored_names_follow_format [of "''c3''" ?e
      "[PostCompress (example_externals ''RGB'') (example_request [1, 2] ''png'' ''80'') 10 11 ''c3'']"
      "example_externals ''RGB''" "example_request [1, 2] ''png'' ''80''" "[]" 10 11 "''c3''"]
  from th reach have p1: "(entry_filename ?e, entry_mimetype ?e)
       \<in> {(''compressed.jpg'', ''image/jpeg''), (''compressed.png'', ''image/png''),
          (''compressed.webp'', ''image/webp'')}"
    by blast
  from th ok have p2: "\<exists>e'. map_of (snd (compress_image (example_externals ''RGB'')
                           (example_request [1, 2] ''png'' ''80'') [] 10 11 ''c3'')) ''c3''
              = Some e'
           \<and> (requested_format (example_request [1, 2] ''png'' ''80''),
               entry_filename e', entry_mimetype e')
               \<in> {(''JPEG'', ''compressed.jpg'', ''image/jpeg''),
                  (''PNG'', ''compressed.png'', ''image/png''),
                  (''WEBP'', ''compressed.webp'', ''image/webp'')}"
    by blast
  from reach p1 ok p2 show ?thesis by (intro conjI)
qed

section \<open>The quality option\<close>

text \<open>
  C6.  The clamped quality lies between 1 and 100 for every integer, clamping twice is
  clamping once, and a quality field that is missing or that \<^verbatim>\<open>int\<close> rejects is read as
  40, which the clamp leaves as it is; a field that \<^verbatim>\<open>int\<close> accepts is read as its value.
  The quality shown on the page of a successful compression is the clamped reading.
\<close>

theorem quality_clamped:
  "1 \<le> clamp_quality q \<and> clamp_quality q \<le> 100
   \<and> clamp_quality q = max 1 (min 100 q)
   \<and> clamp_quality (clamp_quality q) = clamp_quality q
   \<and> parse_quality to_int None = 40
   \<and> (to_int s = None \<longrightarrow> parse_quality to_int (Some s) = 40)
   \<and> (to_int s = Some n \<longrightarrow> parse_quality to_int (Some s) = n)
   \<and> clamp_quality 40 = 40
   \<and> (\<not> upload_fails ext req
        \<longrightarrow> (\<exists>r. fst (compress_image ext req c n1 n2 nid) = RenderIndex (Some r)
               \<and> res_quality r
                   = clamp_quality (parse_quality (int_of_str ext) (form_quality req))))"
proof -
  have "\<exists>r. fst (compress_image ext req c n1 n2 nid) = RenderIndex (Some r)
               \<and> res_quality r
                   = clamp_quality (parse_quality (int_of_str ext) (form_quality req))"
    if ok: "\<not> upload_fails ext req"
  proof -
    from compress_image_success [OF ok, of c n1 n2 nid]
    obtain okb cb ckb pct where
      "compress_image ext req c n1 n2 nid
         = publish (cleanup_expired_cache c n1) (requested_format req)
             (clamp_quality (parse_quality (int_of_str ext) (form_quality req)))
             okb cb ckb pct n2 nid"
      by auto
    with publish_response [of "cleanup_expired_cache c n1" "requested_format req"
        "clamp_quality (parse_quality (int_of_str ext) (form_quality req))" okb cb ckb pct n2 nid]
    show ?thesis by auto
  qed
  then show ?thesis
    by (simp add: clamp_quality_def parse_quality_def MIN_QUALITY_def MAX_QUALITY_def
          DEFAULT_QUALITY_def)
qed

theorem quality_clamped_witness:
  "clamp_quality 250 = 100 \<and> clamp_quality (- 3) = 1 \<and> clamp_quality 80 = 80
   \<and> clamp_quality (clamp_quality 250) = clamp_quality 250
   \<and> int_of_str (example_externals ''RGB'') ''abc'' = None
   \<and> parse_quality (int_of_str (example_externals ''RGB'')) (Some ''abc'') = 40
   \<and> int_of_str (example_externals ''RGB'') ''250'' = Some 250
   \<and> parse_quality (int_of_str (example_externals ''RGB'')) (Some ''250'') = 250
   \<and> \<not> upload_fails (example_externals ''RGB'') (example_request [1, 2] ''JPEG'' ''250'')
   \<and> (\<exists>r. fst (compress_image (example_externals ''RGB'')
                   (example_request [1, 2] ''JPEG'' ''250'') [] 10 11 ''c3'')
               = RenderIndex (Some r)
           \<and> res_quality r = 100)"
proof -
  let ?to_int = "int_of_str (example_externals ''RGB'')"
  have none: "?to_int ''abc'' = None" and some: "?to_int ''250'' = Some 250"
    by (simp_all add: example_externals_def)
  have ok: "\<not> upload_fails (example_externals ''RGB'') (example_request [1, 2] ''JPEG'' ''250'')"
    by code_simp
  have field: "form_quality (example_request [1, 2] ''JPEG'' ''250'') = Some ''250''"
    by (simp add: example_request_def)
  note a = quality_clamped [of 250 ?to_int "''abc''" 250 "example_externals ''RGB''"
      "example_request [1, 2] ''JPEG'' ''250''" "[]" 10 11 "''c3''"]
  note b = quality_clamped [of "- 3" ?to_int "''250''" 250 "example_externals ''RGB''"
      "example_request [1, 2] ''JPEG'' ''250''" "[]" 10 11 "''c3''"]
  note d = quality_clamped [of 80 ?to_int "''250''" 250 "example_externals ''RGB''"
      "example_request [1, 2] ''JPEG'' ''250''" "[]" 10 11 "''c3''"]
  from a have p1a: "clamp_quality 250 = 100" by simp
  from a have p1b: "clamp_quality (clamp_quality 250) = clamp_quality 250" by blast
  note p1 = p1a p1b
  from b have p2: "clamp_quality (- 3) = 1" by simp
  from d have p3: "clamp_quality 80 = 80" by simp
  from a none have p4: "parse_quality ?to_int (Some ''abc'') = 40" by blast
  from b some have p5: "parse_quality ?to_int (Some ''250'') = 250" by blast
  from a ok have "\<exists>r. fst (compress_image (example_externals ''RGB'')
                   (example_request [1, 2] ''JPEG'' ''250'') [] 10 11 ''c3'')
               = RenderIndex (Some r)
           \<and> res_quality r = clamp_quality (parse_quality ?to_int
                 (form_quality (example_request [1, 2] ''JPEG'' ''250'')))"
    by blast
  then have p6: "\<exists>r. fst (compress_image (example_externals ''RGB'')
                   (example_request [1, 2] ''JPEG'' ''250'') [] 10 11 ''c3'')
               = RenderIndex (Some r)
           \<and> res_quality r = 100"
    unfolding field p5 p1a .
  from p1 p2 p3 none p4 some p5 ok p6 show ?thesis by (intro conjI)
qed

section \<open>Transparency\<close>

lemma flatten_rgba_or_palette:
  assumes "img_mode img \<in> {''RGBA'', ''P''}" and "fmt \<noteq> ''PNG''"
    and "flatten_if_needed ext img fmt = Inr img'"
  shows "img_mode img' = ''RGB''"
    and "\<not> mode_has_alpha (img_mode img')"
    and "img_size img' = img_size img"
  using assms
  by (auto simp: flatten_if_needed_def img_convert_def mode_has_alpha_def split: sum.splits)

lemma flatten_png_keeps_image: "flatten_if_needed ext img ''PNG'' = Inr img"
  by (simp add: flatten_if_needed_def)

lemma flatten_other_modes:
  assumes "img_mode img \<notin> {''RGBA'', ''P''}"
  shows "flatten_if_needed ext img fmt = Inr img"
  using assms by (simp add: flatten_if_needed_def)

text \<open>
  C4.  The source flattens the modes \<^verbatim>\<open>RGBA\<close> and \<^verbatim>\<open>P\<close> only.  An image of mode
  \<^verbatim>\<open>LA\<close>, grey levels with an alpha band, that is to be written as WEBP or as JPEG goes
  to the encoder as it is, with its alpha band.
\<close>

theorem grey_alpha_not_flattened:
  "mode_has_alpha ''LA''
   \<and> flatten_if_needed (example_externals ''LA'')
        \<lparr>img_mode = ''LA'', img_size = (1, 1), img_data = [1, 2]\<rparr> ''WEBP''
       = Inr \<lparr>img_mode = ''LA'', img_size = (1, 1), img_data = [1, 2]\<rparr>
   \<and> flatten_if_needed (example_externals ''LA'')
        \<lparr>img_mode = ''LA'', img_size = (1, 1), img_data = [1, 2]\<rparr> ''JPEG''
       = Inr \<lparr>img_mode = ''LA'', img_size = (1, 1), img_data = [1, 2]\<rparr>
   \<and> mode_has_alpha (img_mode \<lparr>img_mode = ''LA'', img_size = (1, 1), img_data = [1, 2]\<rparr>)
   \<and> requested_format (example_request [1, 2] ''WEBP'' ''80'') = ''WEBP''
   \<and> open_again (example_externals ''LA'') [1, 2]
       = Inr \<lparr>img_mode = ''LA'', img_size = (1, 1), img_data = [1, 2]\<rparr>"
proof -
  have "requested_format (example_request [1, 2] ''WEBP'' ''80'') = ''WEBP''"
    by (simp add: requested_format_def example_request_def str_upper_def upper_char_def)
  then show ?thesis
    by (simp add: mode_has_alpha_def flatten_if_needed_def example_externals_def example_open_def)
qed

section \<open>The effort level of the PNG encoder\<close>

lemma floor_numeral_div:
  "\<lfloor>(numeral a :: rat) / numeral b\<rfloor> = numeral a div numeral b"
  using floor_divide_of_int_eq [of "numeral a" "numeral b", where ?'a = rat] by simp

lemmas float_eval =
  float_round_def floor_log2_def round_half_even_def log2_up.simps log2_down.simps
  floor_numeral_div






























section \<open>Facts about the rounding of floats\<close>

lemma log2_up_bounds: "1 \<le> x \<Longrightarrow> 2 ^ log2_up x \<le> x \<and> x < 2 ^ Suc (log2_up x)"
proof (induction x rule: log2_up.induct)
  case (1 x)
  show ?case
  proof (cases "2 \<le> x")
    case True
    then have "1 \<le> x / 2" by simp
    from "1.IH" [OF True this] True show ?thesis
      by (subst (1 2) log2_up.simps) simp
  next
    case False
    with "1.prems" show ?thesis
      by (subst (1 2) log2_up.simps) simp
  qed
qed

lemma log2_down_bounds:
  "0 < x \<Longrightarrow> x < 1 \<Longrightarrow> 1 \<le> x * 2 ^ log2_down x \<and> x * 2 ^ log2_down x < 2"
proof (induction x rule: log2_down.induct)
  case (1 x)
  show ?case
  proof (cases "2 * x < 1")
    case True
    with "1.prems" "1.IH" have "1 \<le> 2 * x * 2 ^ log2_down (2 * x) \<and> 2 * x * 2 ^ log2_down (2 * x) < 2"
      by simp
    with "1.prems" show ?thesis
      by (subst (1 2) log2_down.simps) (simp add: mult.assoc mult.left_commute)
  next
    case False
    then have "log2_down (2 * x) = 0"
      by (subst log2_down.simps) simp
    with False "1.prems" show ?thesis
      by (subst (1 2) log2_down.simps) simp
  qed
qed

lemma floor_log2_bounds:
  assumes "0 < x"
  shows "2 powi floor_log2 x \<le> x \<and> x < 2 powi (floor_log2 x + 1)"
proof (cases "1 \<le> x")
  case True
  from log2_up_bounds [OF True] True show ?thesis
    by (simp add: floor_log2_def power_int_add)
next
  case False
  with assms log2_down_bounds [of x]
  have b: "1 \<le> x * 2 ^ log2_down x" "x * 2 ^ log2_down x < 2" by simp_all
  have p: "(0::rat) < 2 ^ log2_down x" by simp
  have lo: "(2::rat) powi floor_log2 x = 1 / 2 ^ log2_down x"
    using False by (simp add: floor_log2_def power_int_minus_divide)
  have hi: "(2::rat) powi (floor_log2 x + 1) = 2 / 2 ^ log2_down x"
    using False by (simp add: floor_log2_def power_int_diff power_int_minus_divide)
  have "1 / 2 ^ log2_down x \<le> x"
    using b(1) p by (simp only: pos_divide_le_eq)
  moreover have "x < 2 / 2 ^ log2_down x"
    using b(2) p by (simp only: pos_less_divide_eq)
  ultimately show ?thesis
    by (simp only: lo hi)
qed

lemma round_half_even_of_int: "round_half_even (of_int j) = j"
  by (simp add: round_half_even_def)

lemma round_half_even_close: "\<bar>of_int (round_half_even x) - x\<bar> \<le> 1 / 2"
proof -
  have "of_int \<lfloor>x\<rfloor> \<le> x" "x < of_int \<lfloor>x\<rfloor> + 1" by linarith+
  then show ?thesis
    by (auto simp: round_half_even_def Let_def)
qed

lemma float_round_exact:
  fixes m k :: int
  assumes "\<bar>m\<bar> < 2 ^ 53"
  shows "float_round (of_int m * 2 powi k) = of_int m * 2 powi k"
proof (cases "m = 0")
  case True
  then show ?thesis by (simp add: float_round_def)
next
  case False
  define x :: rat where "x = of_int m * 2 powi k"
  have x0: "x \<noteq> 0" using False by (simp add: x_def)
  have absx: "\<bar>x\<bar> = of_int \<bar>m\<bar> * 2 powi k"
    by (simp add: x_def abs_mult)
  define e where "e = floor_log2 \<bar>x\<bar> - 52"
  from x0 have "0 < \<bar>x\<bar>" by simp
  from floor_log2_bounds [OF this] have lo: "2 powi (e + 52) \<le> \<bar>x\<bar>"
    by (simp add: e_def)
  from assms have "rat_of_int \<bar>m\<bar> < of_int (2 ^ 53)"
    by (simp only: of_int_less_iff)
  then have "rat_of_int \<bar>m\<bar> < 2 powi 53" by simp
  moreover have "(0::rat) < 2 powi k" by simp
  ultimately have "of_int \<bar>m\<bar> * 2 powi k < (2::rat) powi 53 * 2 powi k"
    by (rule mult_strict_right_mono)
  then have "\<bar>x\<bar> < 2 powi (53 + k)"
    by (simp add: absx power_int_add)
  with lo have lt: "(2::rat) powi (e + 52) < 2 powi (53 + k)" by linarith
  have ke: "e \<le> k"
  proof (rule ccontr)
    assume "\<not> e \<le> k"
    then have "53 + k \<le> e + 52" by simp
    then have "(2::rat) powi (53 + k) \<le> 2 powi (e + 52)"
      by (rule power_int_increasing) simp
    with lt show False by simp
  qed
  have "\<bar>x\<bar> / 2 powi e = of_int \<bar>m\<bar> * 2 powi (k - e)"
    by (simp add: absx power_int_diff)
  also have "(2::rat) powi (k - e) = 2 ^ nat (k - e)"
    using ke by (simp add: power_int_nonneg_exp)
  finally have q: "\<bar>x\<bar> / 2 powi e = of_int (\<bar>m\<bar> * 2 ^ nat (k - e))" by simp
  have "round_half_even (\<bar>x\<bar> / 2 powi e) = \<bar>m\<bar> * 2 ^ nat (k - e)"
    unfolding q by (rule round_half_even_of_int)
  then have "float_round x = sgn x * of_int (\<bar>m\<bar> * 2 ^ nat (k - e)) * 2 powi e"
    using x0 by (simp add: float_round_def e_def Let_def)
  also have "\<dots> = sgn x * (\<bar>x\<bar> / 2 powi e) * 2 powi e"
    by (simp only: q)
  also have "\<dots> = sgn x * \<bar>x\<bar>" by simp
  also have "\<dots> = x" by (simp add: sgn_mult_abs)
  finally show ?thesis by (simp add: x_def)
qed


lemma float_of_int_exact:
  assumes "\<bar>j\<bar> < 2 ^ 53"
  shows "float_of_int j = of_int j"
  using float_round_exact [OF assms, of 0] by (simp add: float_of_int_def)

lemma float_round_kb:
  assumes "\<bar>j\<bar> < 2 ^ 53"
  shows "float_round (of_int j / 1024) = of_int j / 1024"
proof -
  have "(2::rat) powi (- 10) = 1 / 1024"
    by (simp add: power_int_minus_divide)
  with float_round_exact [OF assms, of "- 10"] show ?thesis by simp
qed

lemma size_kb_exact:
  assumes "n < 2 ^ 53"
  shows "float_div (float_of_int (int n)) 1024 = of_nat n / 1024"
proof -
  from assms have "int n < 2 ^ 53"
    by (metis of_nat_less_iff of_nat_numeral of_nat_power)
  then have b: "\<bar>int n\<bar> < 2 ^ 53" by simp
  show ?thesis
    using float_round_kb [OF b] by (simp add: float_div_def float_of_int_exact [OF b])
qed

lemma compression_percent_zero: "compression_percent 0 ckb = Inr 0"
  by (simp add: compression_percent_def)

lemma compression_percent_exact:
  assumes "n < 2 ^ 46" and "m < 2 ^ 46"
  shows "compression_percent (of_nat n / 1024) (of_nat m / 1024)
           = Inr (if 0 < n
                  then float_round
                         (100 * (of_nat n / 1024 - of_nat m / 1024) / (of_nat n / 1024))
                  else 0)"
proof (cases "0 < n")
  case False
  then show ?thesis by (simp add: compression_percent_def)
next
  case True
  from assms have n: "int n < 2 ^ 46" and m: "int m < 2 ^ 46"
    by (metis of_nat_less_iff of_nat_numeral of_nat_power)+
  then have d: "\<bar>int n - int m\<bar> < 2 ^ 53" and h: "\<bar>100 * (int n - int m)\<bar> < 2 ^ 53"
    by simp_all
  have "float_sub (of_nat n / 1024) (of_nat m / 1024)
          = float_round (of_int (int n - int m) / 1024)"
    by (simp add: float_sub_def diff_divide_distrib)
  also have "\<dots> = of_int (int n - int m) / 1024"
    using d by (rule float_round_kb)
  finally have sub: "float_sub (of_nat n / 1024) (of_nat m / 1024)
      = of_int (int n - int m) / 1024" .
  have "float_mul 100 (of_int (int n - int m) / 1024)
          = float_round (of_int (100 * (int n - int m)) / 1024)"
    by (simp add: float_mul_def)
  also have "\<dots> = of_int (100 * (int n - int m)) / 1024"
    using h by (rule float_round_kb)
  finally have mul: "float_mul 100 (float_sub (of_nat n / 1024) (of_nat m / 1024))
      = 100 * (of_nat n / 1024 - of_nat m / 1024)"
    unfolding sub by (simp add: diff_divide_distrib)
  from True have pos: "(0::rat) < of_nat n / 1024" by simp
  then show ?thesis
    using True by (simp add: compression_percent_def mul float_truediv_def)
qed

lemma py_round_two_places:
  "\<exists>j. py_round_ndigits x 2 = float_round (of_int j / 100) \<and> \<bar>of_int j / 100 - x\<bar> \<le> 1 / 200"
proof -
  let ?j = "round_half_even (x * 100)"
  have "\<bar>of_int ?j - x * 100\<bar> \<le> 1 / 2" by (rule round_half_even_close)
  then have "\<bar>of_int ?j / 100 - x\<bar> \<le> 1 / 200" by (simp add: abs_le_iff field_simps)
  moreover have "py_round_ndigits x 2 = float_round (of_int ?j / 100)"
    by (simp add: py_round_ndigits_def)
  ultimately show ?thesis by blast
qed

lemma publish_result:
  "fst (publish c fmt q okb cb ckb pct now nid)
     = RenderIndex (Some \<lparr>res_original_kb = py_round_ndigits okb 2,
                           res_compressed_kb = py_round_ndigits ckb 2,
                           res_percent = py_round_ndigits pct 2,
                           res_format = fmt, res_quality = q, res_download_id = nid,
                           res_filename = ''compressed.'' @ safe_output_extension fmt\<rparr>)"
  by (simp add: publish_def Let_def)

lemma compress_image_no_zero_division:
  "fst (compress_image ext req c n1 n2 nid) \<noteq> InternalServerError ZeroDivisionError"
proof (cases "upload_fails ext req")
  case True
  show ?thesis
  proof (cases "convert_raises ext req")
    case True
    from compress_image_convert_raises [OF True, of c n1 n2 nid] show ?thesis by auto
  next
    case False
    from compress_image_guarded_failure [OF \<open>upload_fails ext req\<close> False, of c n1 n2 nid]
    show ?thesis by auto
  qed
next
  case False
  from compress_image_success [OF False, of c n1 n2 nid]
  obtain fmt q okb cb ckb pct where
    "compress_image ext req c n1 n2 nid
       = publish (cleanup_expired_cache c n1) fmt q okb cb ckb pct n2 nid"
    by auto
  then show ?thesis by (simp add: publish_result)
qed

section \<open>The reported sizes and percentage\<close>

text \<open>
  C7.  The division of the percentage never raises: the computation of the percentage
  returns a number for every pair of sizes, no request to the compress route ends in an
  uncaught \<^verbatim>\<open>ZeroDivisionError\<close>, and the percentage for an original size of 0 is
  exactly 0.  For an upload of \<open>n\<close> bytes and a compressed image of \<open>m\<close> bytes, both
  below \<open>2 ^ 46\<close>, the sizes in kilobytes are exactly \<open>n / 1024\<close> and \<open>m / 1024\<close>,
  and for \<open>n > 0\<close> the percentage is the float nearest to
  \<open>100 * (originalKB - compressedKB) / originalKB\<close>: the subtraction and the
  multiplication of the source are exact, only the division rounds.  The page of a
  successful compression shows the original size, the compressed size and the percentage
  each rounded by \<^verbatim>\<open>round(x, 2)\<close>, which is the float nearest to a decimal with two
  places that differs from \<open>x\<close> by at most half a hundredth.
\<close>

theorem percent_reported:
  "fst (compress_image ext req c n1 n2 nid) \<noteq> InternalServerError ZeroDivisionError
   \<and> (\<exists>p. compression_percent okb ckb = Inr p)
   \<and> compression_percent 0 ckb = Inr 0
   \<and> (n < 2 ^ 46 \<and> m < 2 ^ 46
        \<longrightarrow> float_div (float_of_int (int n)) 1024 = of_nat n / 1024
            \<and> float_div (float_of_int (int m)) 1024 = of_nat m / 1024
            \<and> compression_percent (of_nat n / 1024) (of_nat m / 1024)
                = Inr (if 0 < n
                       then float_round
                              (100 * (of_nat n / 1024 - of_nat m / 1024) / (of_nat n / 1024))
                       else 0))
   \<and> (\<not> upload_fails ext req
        \<longrightarrow> (\<exists>f e pct r.
               files_file req = Some f
               \<and> map_of (snd (compress_image ext req c n1 n2 nid)) nid = Some e
               \<and> compression_percent (measure_orig_size_kb f)
                    (float_div (float_of_int (int (length (entry_bytes e)))) 1024) = Inr pct
               \<and> fst (compress_image ext req c n1 n2 nid) = RenderIndex (Some r)
               \<and> res_original_kb r = py_round_ndigits (measure_orig_size_kb f) 2
               \<and> res_compressed_kb r
                   = py_round_ndigits
                       (float_div (float_of_int (int (length (entry_bytes e)))) 1024) 2
               \<and> res_percent r = py_round_ndigits pct 2))
   \<and> measure_orig_size_kb f'
       = (if fs_measure_raises f' then 0
          else float_div (float_of_int (int (length (fs_stream f')))) 1024)
   \<and> (\<exists>j. py_round_ndigits x 2 = float_round (of_int j / 100)
            \<and> \<bar>of_int j / 100 - x\<bar> \<le> 1 / 200)"
proof (intro conjI impI)
  show "fst (compress_image ext req c n1 n2 nid) \<noteq> InternalServerError ZeroDivisionError"
    by (rule compress_image_no_zero_division)
  show "\<exists>p. compression_percent okb ckb = Inr p"
    by (rule compression_percent_returns)
  show "compression_percent 0 ckb = Inr 0"
    by (rule compression_percent_zero)
  show "measure_orig_size_kb f'
       = (if fs_measure_raises f' then 0
          else float_div (float_of_int (int (length (fs_stream f')))) 1024)"
    by (simp add: measure_orig_size_kb_def)
  show "\<exists>j. py_round_ndigits x 2 = float_round (of_int j / 100)
            \<and> \<bar>of_int j / 100 - x\<bar> \<le> 1 / 200"
    by (rule py_round_two_places)
next
  assume b: "n < 2 ^ 46 \<and> m < 2 ^ 46"
  then have "n < 2 ^ 53" "m < 2 ^ 53"
    by (simp_all add: order_less_trans [where y = "2 ^ 46"])
  then show "float_div (float_of_int (int n)) 1024 = of_nat n / 1024"
    and "float_div (float_of_int (int m)) 1024 = of_nat m / 1024"
    by (simp_all add: size_kb_exact)
  from b show "compression_percent (of_nat n / 1024) (of_nat m / 1024)
                = Inr (if 0 < n
                       then float_round
                              (100 * (of_nat n / 1024 - of_nat m / 1024) / (of_nat n / 1024))
                       else 0)"
    by (simp add: compression_percent_exact)
next
  assume ok: "\<not> upload_fails ext req"
  from compress_image_success [OF ok, of c n1 n2 nid]
  obtain f cb pct where f: "files_file req = Some f"
    and pct: "compression_percent (measure_orig_size_kb f)
                (float_div (float_of_int (int (length cb))) 1024) = Inr pct"
    and eq: "compress_image ext req c n1 n2 nid
       = publish (cleanup_expired_cache c n1) (requested_format req)
           (clamp_quality (parse_quality (int_of_str ext) (form_quality req)))
           (measure_orig_size_kb f) cb (float_div (float_of_int (int (length cb))) 1024)
           pct n2 nid"
    by auto
  obtain e where e: "map_of (snd (compress_image ext req c n1 n2 nid)) nid = Some e"
    "entry_bytes e = cb"
    unfolding eq publish_cache by (simp add: update_conv')
  obtain r where r: "fst (compress_image ext req c n1 n2 nid) = RenderIndex (Some r)"
    "res_original_kb r = py_round_ndigits (measure_orig_size_kb f) 2"
    "res_compressed_kb r = py_round_ndigits (float_div (float_of_int (int (length cb))) 1024) 2"
    "res_percent r = py_round_ndigits pct 2"
    unfolding eq publish_result by simp
  from f e pct r
  show "\<exists>f e pct r.
               files_file req = Some f
               \<and> map_of (snd (compress_image ext req c n1 n2 nid)) nid = Some e
               \<and> compression_percent (measure_orig_size_kb f)
                    (float_div (float_of_int (int (length (entry_bytes e)))) 1024) = Inr pct
               \<and> fst (compress_image ext req c n1 n2 nid) = RenderIndex (Some r)
               \<and> res_original_kb r = py_round_ndigits (measure_orig_size_kb f) 2
               \<and> res_compressed_kb r
                   = py_round_ndigits
                       (float_div (float_of_int (int (length (entry_bytes e)))) 1024) 2
               \<and> res_percent r = py_round_ndigits pct 2"
    by auto
qed


lemma float_round_examples:
  "float_round 75 = 75" "float_round 2048 = 2048" "float_round 2 = 2"
  "float_round 512 = 512" "float_round (1 / 2) = 1 / 2" "float_round (3 / 2) = 3 / 2"
  "float_round 150 = 150"
  by (simp_all add: float_eval)

theorem percent_reported_witness:
  "(2048::nat) < 2 ^ 46 \<and> (512::nat) < 2 ^ 46
   \<and> float_div (float_of_int (int 2048)) 1024 = 2
   \<and> float_div (float_of_int (int 512)) 1024 = 1 / 2
   \<and> compression_percent 2 (1 / 2) = Inr 75
   \<and> compression_percent 0 (1 / 2) = Inr 0
   \<and> fst (compress_image
          ((example_externals ''RGB'')\<lparr>save := (\<lambda>img _. Inr (take 512 (img_data img)))\<rparr>)
          (example_request (replicate 2048 0) ''JPEG'' ''80'') [] 10 11 ''c3'')
       \<noteq> InternalServerError ZeroDivisionError
   \<and> \<not> upload_fails
          ((example_externals ''RGB'')\<lparr>save := (\<lambda>img _. Inr (take 512 (img_data img)))\<rparr>)
          (example_request (replicate 2048 0) ''JPEG'' ''80'')
   \<and> fst (compress_image
          ((example_externals ''RGB'')\<lparr>save := (\<lambda>img _. Inr (take 512 (img_data img)))\<rparr>)
          (example_request (replicate 2048 0) ''JPEG'' ''80'') [] 10 11 ''c3'')
       = RenderIndex (Some \<lparr>res_original_kb = 2, res_compressed_kb = 1 / 2, res_percent = 75,
                            res_format = ''JPEG'', res_quality = 80, res_download_id = ''c3'',
                            res_filename = ''compressed.jpg''\<rparr>)"
proof -
  let ?ext = "(example_externals ''RGB'')\<lparr>save := (\<lambda>img _. Inr (take 512 (img_data img)))\<rparr>"
  let ?req = "example_request (replicate 2048 0) ''JPEG'' ''80''"
  note th = percent_reported [of ?ext ?req "[]" 10 11 "''c3''" 2 "1 / 2" 2048 512
      "example_file (replicate 2048 0)" 75]
  have b: "(2048::nat) < 2 ^ 46 \<and> (512::nat) < 2 ^ 46" by simp
  note sizes = th [THEN conjunct2, THEN conjunct2, THEN conjunct2, THEN conjunct1,
      rule_format, OF b]
  from sizes have p1: "float_div (float_of_int (int 2048)) 1024 = 2"
    and p2: "float_div (float_of_int (int 512)) 1024 = 1 / 2"
    by simp_all
  from sizes have "compression_percent (of_nat 2048 / 1024) (of_nat 512 / 1024)
      = Inr (if (0::nat) < 2048
             then float_round (100 * (of_nat 2048 / 1024 - of_nat 512 / 1024) / (of_nat 2048 / 1024))
             else 0)"
    by blast
  then have p3: "compression_percent 2 (1 / 2) = Inr 75"
    by (simp add: float_round_examples)
  from th have p4: "compression_percent 0 (1 / 2) = Inr 0" by blast
  from th have p5: "fst (compress_image ?ext ?req [] 10 11 ''c3'')
      \<noteq> InternalServerError ZeroDivisionError"
    by blast
  have ok: "\<not> upload_fails ?ext ?req"
    by (simp add: upload_fails_def example_externals_def example_request_def example_file_def
          example_open_def requested_format_def str_upper_def upper_char_def
          ALLOWED_OUTPUT_FORMATS_def open_and_verify_def flatten_if_needed_def)
  have res: "fst (compress_image ?ext ?req [] 10 11 ''c3'')
       = RenderIndex (Some \<lparr>res_original_kb = 2, res_compressed_kb = 1 / 2, res_percent = 75,
                            res_format = ''JPEG'', res_quality = 80, res_download_id = ''c3'',
                            res_filename = ''compressed.jpg''\<rparr>)"
    by (simp add: compress_image_def example_externals_def example_request_def example_file_def
          example_open_def requested_format_def str_upper_def upper_char_def
          ALLOWED_OUTPUT_FORMATS_def open_and_verify_def cleanup_expired_cache_def
          expired_keys_def clamp_quality_def parse_quality_def MIN_QUALITY_def MAX_QUALITY_def
          measure_orig_size_kb_def flatten_if_needed_def build_save_kwargs_def
          compression_percent_def float_truediv_def float_mul_def float_sub_def float_div_def
          float_of_int_def publish_def safe_output_extension_def py_round_ndigits_def
          float_round_examples round_half_even_def floor_numeral_div Let_def)
  from b p1 p2 p3 p4 p5 ok res show ?thesis by (intro conjI) simp_all
qed

end
